theory Spec2Isabelle
  imports Main
begin

section \<open>JavaScript values used by the translator service\<close>

text \<open>
  A JavaScript number that came out of \<open>parseInt\<close> is either an integer or \<open>NaN\<close>.
  Integers are exact here; the source's doubles are exact up to \<open>2^53\<close>, which covers
  every Telegram identity.
\<close>

datatype number = NaN | Num int

text \<open>An optional string is falsy when it is \<open>undefined\<close> or empty.\<close>

fun truthy :: "string option \<Rightarrow> bool" where
  "truthy None = False"
| "truthy (Some s) = (s \<noteq> [])"

text \<open>\<open>String.prototype.split\<close> with a one-character separator.\<close>

fun split :: "char \<Rightarrow> string \<Rightarrow> string list" where
  "split c [] = [[]]"
| "split c (x # xs) =
     (if x = c then [] # split c xs
      else (case split c xs of [] \<Rightarrow> [[x]] | w # ws \<Rightarrow> (x # w) # ws))"

text \<open>Array destructuring \<open>[a, b, c] = arr\<close>: a missing position is \<open>undefined\<close>.\<close>

definition at :: "'a list \<Rightarrow> nat \<Rightarrow> 'a option" where
  "at xs i = (if i < length xs then Some (xs ! i) else None)"

text \<open>White space as \<open>trim\<close> and \<open>parseInt\<close> see it (the ASCII part of it).\<close>

definition is_space :: "char \<Rightarrow> bool" where
  "is_space c = (c \<in> set [CHR '' '', CHR 0x09, CHR 0x0A, CHR 0x0B, CHR 0x0C, CHR 0x0D])"

definition trim :: "string \<Rightarrow> string" where
  "trim s = rev (dropWhile is_space (rev (dropWhile is_space s)))"

definition digit_table :: "(char \<times> nat) list" where
  "digit_table =
     [(CHR ''0'', 0), (CHR ''1'', 1), (CHR ''2'', 2), (CHR ''3'', 3), (CHR ''4'', 4),
      (CHR ''5'', 5), (CHR ''6'', 6), (CHR ''7'', 7), (CHR ''8'', 8), (CHR ''9'', 9),
      (CHR ''a'', 10), (CHR ''b'', 11), (CHR ''c'', 12), (CHR ''d'', 13), (CHR ''e'', 14),
      (CHR ''f'', 15), (CHR ''A'', 10), (CHR ''B'', 11), (CHR ''C'', 12), (CHR ''D'', 13),
      (CHR ''E'', 14), (CHR ''F'', 15)]"

definition digit_of :: "nat \<Rightarrow> char \<Rightarrow> nat option" where
  "digit_of radix c =
     (case map_of digit_table c of
        None \<Rightarrow> None
      | Some d \<Rightarrow> if d < radix then Some d else None)"

fun take_digits :: "nat \<Rightarrow> string \<Rightarrow> nat list" where
  "take_digits radix [] = []"
| "take_digits radix (c # cs) =
     (case digit_of radix c of None \<Rightarrow> [] | Some d \<Rightarrow> d # take_digits radix cs)"

definition digits_value :: "nat \<Rightarrow> nat list \<Rightarrow> nat" where
  "digits_value radix ds = foldl (\<lambda>acc d. acc * radix + d) 0 ds"

text \<open>
  \<open>parseInt(s)\<close> with no radix: leading white space, an optional sign, an optional
  \<open>0x\<close>/\<open>0X\<close> prefix selecting base 16, then the longest run of digits; \<open>NaN\<close> when
  that run is empty.
\<close>

definition parseInt :: "string \<Rightarrow> number" where
  "parseInt s =
     (let s1 = dropWhile is_space s;
          (sign, s2) = (case s1 of
                          c # r \<Rightarrow> if c = CHR ''-'' then (- 1 :: int, r)
                                   else if c = CHR ''+'' then (1, r) else (1, s1)
                        | [] \<Rightarrow> (1, s1));
          (radix, s3) = (if take 2 s2 = ''0x'' \<or> take 2 s2 = ''0X''
                         then (16 :: nat, drop 2 s2) else (10, s2));
          ds = take_digits radix s3
      in if ds = [] then NaN else Num (sign * int (digits_value radix ds)))"

section \<open>Configuration\<close>

datatype error = Error string

text \<open>
  What a property lookup on the prompt catalog can yield: \<open>undefined\<close>, a string, or a
  value that is not a string (a number, a boolean, \<open>null\<close>, an object, a function). The
  service tests the value for truthiness and hands it on, so of a value that is not a
  string only the truthiness is kept.
\<close>

datatype jsval = Undefined | Text string | Other bool

fun truthy_val :: "jsval \<Rightarrow> bool" where
  "truthy_val Undefined = False"
| "truthy_val (Text s) = (s \<noteq> [])"
| "truthy_val (Other b) = b"

record ChannelConfig =
  sourceId :: number
  targetTopicId :: number
  promptKey :: string
  prompt :: jsval

text \<open>The warnings of the configuration parser (its informational lines are left out).\<close>

datatype logline = Warn string

text \<open>
  A value as \<open>JSON.parse\<close> returns it: \<open>null\<close>, or any other value, given by what
  property lookup finds under each name, own members and inherited ones alike.
\<close>

datatype parsed = Null | Value "string \<Rightarrow> jsval"

text \<open>\<open>v[k]\<close> throws a \<open>TypeError\<close> on \<open>null\<close> and looks the member up otherwise.\<close>

definition js_get :: "parsed \<Rightarrow> string \<Rightarrow> error + jsval" where
  "js_get v k =
     (case v of
        Null \<Rightarrow> Inl (Error ''TypeError: Cannot read properties of null'')
      | Value get \<Rightarrow> Inr (get k))"

text \<open>
  \<open>Object.keys(v)\<close>, of which \<open>loadPrompts\<close> logs the length: it throws a
  \<open>TypeError\<close> on \<open>null\<close>.
\<close>

definition object_keys :: "parsed \<Rightarrow> error + unit" where
  "object_keys v =
     (case v of
        Null \<Rightarrow> Inl (Error ''TypeError: Cannot convert undefined or null to object'')
      | Value get \<Rightarrow> Inr ())"

text \<open>
  What \<open>loadPrompts\<close> finds on disk: no file, a file that \<open>readFileSync\<close> cannot
  read, text on which \<open>JSON.parse\<close> throws, or text that parses to a value.
\<close>

datatype prompts_file =
    Missing
  | Unreadable error
  | Unparsable error
  | Parsed parsed

text \<open>
  The object \<open>{ default: "" }\<close>: its own member, and under the names of \<open>proto\<close> the
  members it inherits from \<open>Object.prototype\<close>, which are functions or objects. Which
  names these are is the runtime's matter, so \<open>proto\<close> is a parameter.
\<close>

definition default_only :: "string list \<Rightarrow> string \<Rightarrow> jsval" where
  "default_only proto k =
     (if k = ''default'' then Text []
      else if k \<in> set proto then Other True
      else Undefined)"

text \<open>
  The \<open>try\<close> block of \<open>loadPrompts\<close>: without a file the catalog is
  \<open>{ default: "" }\<close>; with one, reading, parsing and \<open>Object.keys\<close> may each throw.
\<close>

definition loadPrompts_try :: "string list \<Rightarrow> prompts_file \<Rightarrow> error + parsed" where
  "loadPrompts_try proto f =
     (case f of
        Missing \<Rightarrow> Inr (Value (default_only proto))
      | Unreadable e \<Rightarrow> Inl e
      | Unparsable e \<Rightarrow> Inl e
      | Parsed v \<Rightarrow> (case object_keys v of Inl e \<Rightarrow> Inl e | Inr _ \<Rightarrow> Inr v))"

text \<open>\<open>loadPrompts\<close>: the \<open>catch\<close> block sets the catalog to \<open>{ default: "" }\<close>.\<close>

definition loadPrompts :: "string list \<Rightarrow> prompts_file \<Rightarrow> parsed" where
  "loadPrompts proto f =
     (case loadPrompts_try proto f of
        Inl e \<Rightarrow> Value (default_only proto)
      | Inr v \<Rightarrow> v)"

record env =
  CHANNELS_CONFIG :: "string option"
  TARGET_GROUP_ID :: "string option"
  SOURCE_CHANNEL_ID :: "string option"
  TARGET_CHANNEL_ID :: "string option"

record config =
  cfg_targetGroupId :: "number option"
  cfg_channels :: "ChannelConfig list"
  cfg_useLegacyMode :: bool
  cfg_useDirectIds :: bool
  cfg_sourceChannelId :: "number option"
  cfg_targetChannelId :: "number option"
  cfg_log :: "logline list"

text \<open>
  One turn of the loop over the entries of \<open>CHANNELS_CONFIG\<close>. The lookup
  \<open>this.prompts[promptKey.trim()]\<close> is the only step that can throw.
\<close>

definition parseEntry ::
  "parsed \<Rightarrow> string \<Rightarrow> ChannelConfig list \<times> logline list
     \<Rightarrow> error + ChannelConfig list \<times> logline list" where
  "parseEntry prompts entry acc =
     (let fields = split CHR '':'' entry;
          sourceId = at fields 0;
          targetTopicId = at fields 1;
          promptKey = at fields 2
      in if \<not> truthy sourceId \<or> \<not> truthy targetTopicId \<or> \<not> truthy promptKey
         then Inr (fst acc, snd acc @ [Warn (''Invalid channel config entry: '' @ entry)])
         else
           case js_get prompts (trim (the promptKey)) of
             Inl e \<Rightarrow> Inl e
           | Inr p \<Rightarrow>
               let c = \<lparr> sourceId = parseInt (trim (the sourceId)),
                         targetTopicId = parseInt (trim (the targetTopicId)),
                         promptKey = trim (the promptKey),
                         prompt = p \<rparr>;
                   w = (if \<not> truthy_val (prompt c) \<and> the promptKey \<noteq> ''default''
                        then [Warn (''Prompt key '' @ [CHR 0x27] @ the promptKey @ [CHR 0x27] @
                                    '' not found in prompts.json, will use default'')]
                        else [])
               in Inr (fst acc @ [c], snd acc @ w))"

fun parseEntries ::
  "parsed \<Rightarrow> string list \<Rightarrow> ChannelConfig list \<times> logline list
     \<Rightarrow> error + ChannelConfig list \<times> logline list" where
  "parseEntries prompts [] acc = Inr acc"
| "parseEntries prompts (entry # entries) acc =
     (case parseEntry prompts entry acc of
        Inl e \<Rightarrow> Inl e
      | Inr acc' \<Rightarrow> parseEntries prompts entries acc')"

definition parseChannelConfiguration :: "parsed \<Rightarrow> env \<Rightarrow> error + config" where
  "parseChannelConfiguration prompts e =
     (if truthy (CHANNELS_CONFIG e) then
        (if \<not> truthy (TARGET_GROUP_ID e)
         then Inl (Error ''TARGET_GROUP_ID is required when using CHANNELS_CONFIG'')
         else
           case parseEntries prompts (split CHR '','' (the (CHANNELS_CONFIG e))) ([], []) of
             Inl e \<Rightarrow> Inl e
           | Inr (chans, lg) \<Rightarrow>
               if length chans = 0
               then Inl (Error ''No valid channels configured in CHANNELS_CONFIG'')
               else Inr \<lparr> cfg_targetGroupId = Some (parseInt (the (TARGET_GROUP_ID e))),
                          cfg_channels = chans,
                          cfg_useLegacyMode = False,
                          cfg_useDirectIds = False,
                          cfg_sourceChannelId = None,
                          cfg_targetChannelId = None,
                          cfg_log = lg \<rparr>)
      else
        (if truthy (SOURCE_CHANNEL_ID e) \<and> truthy (TARGET_CHANNEL_ID e)
         then Inr \<lparr> cfg_targetGroupId = None,
                    cfg_channels = [],
                    cfg_useLegacyMode = True,
                    cfg_useDirectIds = True,
                    cfg_sourceChannelId = Some (parseInt (the (SOURCE_CHANNEL_ID e))),
                    cfg_targetChannelId = Some (parseInt (the (TARGET_CHANNEL_ID e))),
                    cfg_log = [] \<rparr>
         else Inr \<lparr> cfg_targetGroupId = None,
                    cfg_channels = [],
                    cfg_useLegacyMode = True,
                    cfg_useDirectIds = False,
                    cfg_sourceChannelId = None,
                    cfg_targetChannelId = None,
                    cfg_log = [] \<rparr>))"

section \<open>Messages, gateway calls and the service state\<close>

text \<open>\<open>message.media\<close>: only a photo has a \<open>photo\<close> member.\<close>

datatype media = Photo int | Document int

text \<open>
  What the handlers read of an inbound message: \<open>id\<close>, \<open>message\<close> (its text),
  \<open>media\<close>, \<open>groupedId?.toString()\<close> and \<open>replyTo?.replyToMsgId\<close>.
\<close>

record Message =
  message_id :: int
  message :: "string option"
  media :: "media option"
  groupedId :: "string option"
  replyToMsgId :: "int option"

datatype file_arg = NoFile | File media | Files "media list"

record SendParams =
  sp_message :: string
  sp_file :: file_arg
  sp_replyTo :: "number option"

text \<open>The calls the service makes on its two collaborators, in the order it makes them.\<close>

datatype call =
    TranslateToKorean string jsval
  | ClientSendMessage number SendParams
  | SendMessage number string "int option"
  | SendMessageWithMedia number string Message "int option"
  | EditMessage number int string

text \<open>
  The collaborators are outside the repository. Each answer may depend on the call and on
  how many calls were made before it; \<open>Inl\<close> is a rejected promise. A send answers with
  the identifier of the sent message, if the returned object carries one.
\<close>

record gateway =
  translate_result :: "nat \<Rightarrow> string \<Rightarrow> jsval \<Rightarrow> error + string"
  send_result :: "nat \<Rightarrow> call \<Rightarrow> error + int option"
  edit_result :: "nat \<Rightarrow> call \<Rightarrow> error + unit"

text \<open>An entry of \<open>groupedMessages\<close>; \<open>timeout\<close> holds the handle of the last timer armed.\<close>

record GroupData =
  messages :: "Message list"
  timeout :: "nat option"
  channelConfig :: "ChannelConfig option"

text \<open>
  A pending \<open>setTimeout\<close>: its handle, the time it is due, and what its callback closes
  over (the group identifier, the \<open>groupData\<close> object and the channel configuration;
  \<open>None\<close> is the legacy callback).
\<close>

record timer =
  tm_id :: nat
  tm_due :: nat
  tm_groupedId :: string
  tm_data :: nat
  tm_config :: "ChannelConfig option"

text \<open>A timer callback suspended at one of its two \<open>await\<close>s, with the answer it waits for.\<close>

datatype phase = AwaitTranslate "error + string" | AwaitSend "error + int option"

record task =
  tk_id :: nat
  tk_groupedId :: string
  tk_data :: nat
  tk_config :: "ChannelConfig option"
  tk_phase :: phase

text \<open>
  The service. The first four fields are the fields of \<open>TranslatorService\<close> that the
  handlers use. \<open>heap\<close>, \<open>timers\<close> and \<open>tasks\<close> are the part of the JavaScript
  runtime the album buffer lives in: the \<open>groupData\<close> objects by reference, the armed
  timers, and the timer callbacks suspended at an \<open>await\<close>. \<open>calls\<close> and \<open>logged\<close>
  observe the service: the gateway calls it has made and the errors its \<open>catch\<close> blocks
  have logged, in order.
\<close>

record service =
  targetGroupId :: number
  targetChannelId :: number
  messageMapping :: "int \<rightharpoonup> int"
  groupedMessages :: "string \<rightharpoonup> nat"
  heap :: "nat \<Rightarrow> GroupData"
  next_ref :: nat
  timers :: "timer list"
  next_timer :: nat
  tasks :: "task list"
  next_task :: nat
  calls :: "call list"
  logged :: "error list"

definition init :: "number \<Rightarrow> number \<Rightarrow> service" where
  "init tg tc =
     \<lparr> targetGroupId = tg, targetChannelId = tc, messageMapping = Map.empty,
       groupedMessages = Map.empty,
       heap = (\<lambda>_. \<lparr>messages = [], timeout = None, channelConfig = None\<rparr>),
       next_ref = 0, timers = [],
       next_timer = 0, tasks = [], next_task = 0, calls = [], logged = [] \<rparr>"

definition callTranslate ::
  "gateway \<Rightarrow> string \<Rightarrow> jsval \<Rightarrow> service \<Rightarrow> (error + string) \<times> service" where
  "callTranslate gw txt p st =
     (translate_result gw (length (calls st)) txt p,
      st\<lparr>calls := calls st @ [TranslateToKorean txt p]\<rparr>)"

definition callSend :: "gateway \<Rightarrow> call \<Rightarrow> service \<Rightarrow> (error + int option) \<times> service" where
  "callSend gw c st = (send_result gw (length (calls st)) c, st\<lparr>calls := calls st @ [c]\<rparr>)"

definition callEdit :: "gateway \<Rightarrow> call \<Rightarrow> service \<Rightarrow> (error + unit) \<times> service" where
  "callEdit gw c st = (edit_result gw (length (calls st)) c, st\<lparr>calls := calls st @ [c]\<rparr>)"

text \<open>The \<open>catch\<close> block of every handler: log and return.\<close>

definition catch :: "error \<Rightarrow> service \<Rightarrow> service" where
  "catch e st = st\<lparr>logged := logged st @ [e]\<rparr>"

text \<open>\<open>let translatedText = ""; if (messageText) translatedText = await translate(...)\<close>\<close>

definition translateIfPresent ::
  "gateway \<Rightarrow> string option \<Rightarrow> jsval \<Rightarrow> service \<Rightarrow> (error + string) \<times> service" where
  "translateIfPresent gw messageText p st =
     (if truthy messageText then callTranslate gw (the messageText) p st else (Inr [], st))"

text \<open>An optional identifier is falsy when it is \<open>undefined\<close> or \<open>0\<close>.\<close>

fun truthy_id :: "int option \<Rightarrow> bool" where
  "truthy_id None = False"
| "truthy_id (Some n) = (n \<noteq> 0)"

text \<open>\<open>if (replyToMsgId) targetReplyToMsgId = this.messageMapping.get(replyToMsgId)\<close>\<close>

definition resolveReply :: "service \<Rightarrow> Message \<Rightarrow> int option" where
  "resolveReply st m =
     (if truthy_id (replyToMsgId m) then messageMapping st (the (replyToMsgId m)) else None)"

text \<open>\<open>if (sentMessage && sentMessage.id) this.messageMapping.set(sourceMessageId, sentMessage.id)\<close>\<close>

definition storeMapping :: "int \<Rightarrow> int option \<Rightarrow> service \<Rightarrow> service" where
  "storeMapping sourceMessageId sent st =
     (if truthy_id sent
      then st\<lparr>messageMapping := (messageMapping st)(sourceMessageId \<mapsto> the sent)\<rparr>
      else st)"

definition isPhoto :: "Message \<Rightarrow> bool" where
  "isPhoto m = (case media m of Some (Photo _) \<Rightarrow> True | _ \<Rightarrow> False)"

text \<open>\<open>replyTo: targetReplyToMsgId || channelConfig.targetTopicId\<close>\<close>

definition replyToOrTopic :: "int option \<Rightarrow> ChannelConfig \<Rightarrow> number" where
  "replyToOrTopic targetReplyToMsgId c =
     (if truthy_id targetReplyToMsgId then Num (the targetReplyToMsgId) else targetTopicId c)"

section \<open>Single messages\<close>

text \<open>
  A handler is a function on the service state. Its \<open>await\<close>s are taken in sequence: the
  state it returns is the state after its last step, and the calls it made are appended to
  \<open>calls\<close> in order. A rejected promise is an \<open>Inl\<close> answer, and the handler's
  \<open>catch\<close> block turns it into an entry of \<open>logged\<close>.
\<close>

definition singleRequestMulti :: "service \<Rightarrow> Message \<Rightarrow> ChannelConfig \<Rightarrow> string \<Rightarrow> call" where
  "singleRequestMulti st m c translatedText =
     ClientSendMessage (targetGroupId st)
       \<lparr> sp_message = translatedText,
         sp_file = (case media m of None \<Rightarrow> NoFile | Some f \<Rightarrow> File f),
         sp_replyTo = Some (replyToOrTopic (resolveReply st m) c) \<rparr>"

text \<open>
  \<open>processSingleMessageMulti\<close>. A failed send of a photo is caught by the inner
  \<open>try\<close> and leaves \<open>sentMessage\<close> undefined; every other failure reaches the outer
  \<open>catch\<close>. Both log the error and return.
\<close>

definition processSingleMessageMulti ::
  "gateway \<Rightarrow> Message \<Rightarrow> ChannelConfig \<Rightarrow> service \<Rightarrow> service" where
  "processSingleMessageMulti gw m c st =
     (if media m = None \<and> \<not> truthy (message m) then st
      else
        case translateIfPresent gw (message m) (prompt c) st of
          (Inl e, st1) \<Rightarrow> catch e st1
        | (Inr translatedText, st1) \<Rightarrow>
            (case callSend gw (singleRequestMulti st m c translatedText) st1 of
               (Inl e, st2) \<Rightarrow>
                 if isPhoto m then storeMapping (message_id m) None (catch e st2)
                 else catch e st2
             | (Inr sent, st2) \<Rightarrow> storeMapping (message_id m) sent st2))"

definition singleRequest :: "service \<Rightarrow> Message \<Rightarrow> string \<Rightarrow> call" where
  "singleRequest st m translatedText =
     (case media m of
        None \<Rightarrow> SendMessage (targetChannelId st) translatedText (resolveReply st m)
      | Some f \<Rightarrow> SendMessageWithMedia (targetChannelId st) translatedText m (resolveReply st m))"

text \<open>
  \<open>processSingleMessage\<close> (legacy mode). A failed send of a photo is caught and the
  same send is issued once more; a failure of that one reaches the outer \<open>catch\<close>.
\<close>

definition processSingleMessage :: "gateway \<Rightarrow> Message \<Rightarrow> service \<Rightarrow> service" where
  "processSingleMessage gw m st =
     (if media m = None \<and> \<not> truthy (message m) then st
      else
        case translateIfPresent gw (message m) Undefined st of
          (Inl e, st1) \<Rightarrow> catch e st1
        | (Inr translatedText, st1) \<Rightarrow>
            (case callSend gw (singleRequest st m translatedText) st1 of
               (Inl e, st2) \<Rightarrow>
                 if isPhoto m then
                   (case callSend gw (singleRequest st m translatedText) (catch e st2) of
                      (Inl e', st3) \<Rightarrow> catch e' st3
                    | (Inr sent, st3) \<Rightarrow> storeMapping (message_id m) sent st3)
                 else catch e st2
             | (Inr sent, st2) \<Rightarrow> storeMapping (message_id m) sent st2))"

section \<open>Edited messages\<close>

definition handleEditedMessageMulti ::
  "gateway \<Rightarrow> Message \<Rightarrow> ChannelConfig \<Rightarrow> service \<Rightarrow> service" where
  "handleEditedMessageMulti gw m c st =
     (let targetMessageId = messageMapping st (message_id m)
      in if \<not> truthy_id targetMessageId then st
         else
           case translateIfPresent gw (message m) (prompt c) st of
             (Inl e, st1) \<Rightarrow> catch e st1
           | (Inr translatedText, st1) \<Rightarrow>
               (case callEdit gw
                       (EditMessage (targetGroupId st) (the targetMessageId) translatedText) st1 of
                  (Inl e, st2) \<Rightarrow> catch e st2
                | (Inr _, st2) \<Rightarrow> st2))"

definition handleEditedMessage :: "gateway \<Rightarrow> Message \<Rightarrow> service \<Rightarrow> service" where
  "handleEditedMessage gw m st =
     (let targetMessageId = messageMapping st (message_id m)
      in if \<not> truthy_id targetMessageId then st
         else
           case translateIfPresent gw (message m) Undefined st of
             (Inl e, st1) \<Rightarrow> catch e st1
           | (Inr translatedText, st1) \<Rightarrow>
               (case callEdit gw
                       (EditMessage (targetChannelId st) (the targetMessageId) translatedText) st1 of
                  (Inl e, st2) \<Rightarrow> catch e st2
                | (Inr _, st2) \<Rightarrow> st2))"

section \<open>Albums\<close>

text \<open>
  The state of the album buffer is shared between the message handlers, the timer
  callbacks and their continuations: the map holds a reference to a \<open>groupData\<close> object
  and every callback closes over the object it was armed for. The heap keeps objects and
  references apart, so that a callback armed for an object still sees it after the map
  entry is gone.

  The branch of \<open>handleNewMessageMulti\<close> (\<open>cfg = Some c\<close>) and of \<open>handleNewMessage\<close>
  (\<open>cfg = None\<close>) for a message with a \<open>groupedId\<close>, run at time \<open>now\<close> (milliseconds).
\<close>

definition collect :: "nat \<Rightarrow> Message \<Rightarrow> string \<Rightarrow> ChannelConfig option \<Rightarrow> service \<Rightarrow> service" where
  "collect now m gid cfg st =
     (let st1 = (if groupedMessages st gid = None
                 then st\<lparr> groupedMessages := (groupedMessages st)(gid \<mapsto> next_ref st),
                          heap := (heap st)(next_ref st :=
                                     \<lparr>messages = [], timeout = None, channelConfig = cfg\<rparr>),
                          next_ref := Suc (next_ref st) \<rparr>
                 else st);
          a = the (groupedMessages st1 gid);
          groupData = heap st1 a;
          cleared = (case timeout groupData of
                       None \<Rightarrow> timers st1
                     | Some h \<Rightarrow> filter (\<lambda>tm. tm_id tm \<noteq> h) (timers st1));
          h' = next_timer st1
      in st1\<lparr> heap := (heap st1)(a := groupData\<lparr> messages := messages groupData @ [m],
                                                   timeout := Some h' \<rparr>),
              timers := cleared @ [\<lparr> tm_id = h', tm_due = now + 1000, tm_groupedId = gid,
                                     tm_data = a, tm_config = cfg \<rparr>],
              next_timer := Suc h' \<rparr>)"

definition handleNewMessageMulti ::
  "gateway \<Rightarrow> nat \<Rightarrow> Message \<Rightarrow> ChannelConfig \<Rightarrow> service \<Rightarrow> service" where
  "handleNewMessageMulti gw now m c st =
     (if truthy (groupedId m) then collect now m (the (groupedId m)) (Some c) st
      else processSingleMessageMulti gw m c st)"

definition handleNewMessage :: "gateway \<Rightarrow> nat \<Rightarrow> Message \<Rightarrow> service \<Rightarrow> service" where
  "handleNewMessage gw now m st =
     (if truthy (groupedId m) then collect now m (the (groupedId m)) None st
      else processSingleMessage gw m st)"

text \<open>\<open>messages.find((msg) => msg.message)?.message || ""\<close>\<close>

definition firstText :: "Message list \<Rightarrow> string" where
  "firstText ms = (case find (\<lambda>msg. truthy (message msg)) ms of
                     None \<Rightarrow> [] | Some msg \<Rightarrow> the (message msg))"

text \<open>\<open>messages.filter((msg) => msg.media).map((msg) => msg.media)\<close>\<close>

definition mediaFiles :: "Message list \<Rightarrow> media list" where
  "mediaFiles ms = map (\<lambda>msg. the (media msg)) (filter (\<lambda>msg. media msg \<noteq> None) ms)"

text \<open>
  The send of \<open>processGroupedMessagesMulti\<close> (\<open>Some c\<close>) and of
  \<open>processGroupedMessages\<close> (\<open>None\<close>).
\<close>

definition groupRequest :: "service \<Rightarrow> ChannelConfig option \<Rightarrow> Message list \<Rightarrow> string \<Rightarrow> call" where
  "groupRequest st cfg ms translatedText =
     (case cfg of
        Some c \<Rightarrow>
          if length (mediaFiles ms) > 0
          then ClientSendMessage (targetGroupId st)
                 \<lparr> sp_message = translatedText, sp_file = Files (mediaFiles ms),
                   sp_replyTo = Some (targetTopicId c) \<rparr>
          else ClientSendMessage (targetGroupId st)
                 \<lparr> sp_message = translatedText, sp_file = NoFile,
                   sp_replyTo = Some (targetTopicId c) \<rparr>
      | None \<Rightarrow>
          if length (mediaFiles ms) > 0
          then ClientSendMessage (targetChannelId st)
                 \<lparr> sp_message = translatedText, sp_file = Files (mediaFiles ms),
                   sp_replyTo = None \<rparr>
          else SendMessage (targetChannelId st) translatedText None)"

text \<open>
  The second half of the flush: the media are collected from the array as it is now,
  the send is issued and the callback is suspended on it.
\<close>

definition startSend ::
  "gateway \<Rightarrow> nat \<Rightarrow> string \<Rightarrow> nat \<Rightarrow> ChannelConfig option \<Rightarrow> string \<Rightarrow> service \<Rightarrow> service" where
  "startSend gw k gid a cfg translatedText st =
     (case callSend gw (groupRequest st cfg (messages (heap st a)) translatedText) st of
        (r, st1) \<Rightarrow>
          st1\<lparr>tasks := tasks st1 @ [\<lparr> tk_id = k, tk_groupedId = gid, tk_data = a,
                                       tk_config = cfg, tk_phase = AwaitSend r \<rparr>]\<rparr>)"

text \<open>
  \<open>processGroupedMessagesMulti\<close> and \<open>processGroupedMessages\<close> suspend at their two
  \<open>await\<close>s, and other handlers run in between. They are cut there: \<open>fire\<close> is the
  start of the timer callback, \<open>startSend\<close> the part between the translation and the
  send, and \<open>settle\<close> runs the continuation of a settled promise.

  A timer fires: its callback runs the flush up to the first \<open>await\<close>, which is the
  translation when some member has text and the send otherwise.
\<close>

definition fire :: "gateway \<Rightarrow> timer \<Rightarrow> service \<Rightarrow> service" where
  "fire gw tm st =
     (let k = next_task st;
          st0 = st\<lparr>next_task := Suc k\<rparr>;
          messageText = firstText (messages (heap st (tm_data tm)))
      in if messageText \<noteq> [] then
           (case callTranslate gw messageText
                   (case tm_config tm of None \<Rightarrow> Undefined | Some c \<Rightarrow> prompt c) st0 of
              (r, st1) \<Rightarrow>
                st1\<lparr>tasks := tasks st1 @ [\<lparr> tk_id = k, tk_groupedId = tm_groupedId tm,
                                             tk_data = tm_data tm, tk_config = tm_config tm,
                                             tk_phase = AwaitTranslate r \<rparr>]\<rparr>)
         else startSend gw k (tm_groupedId tm) (tm_data tm) (tm_config tm) [] st0)"

text \<open>The end of the timer callback: \<open>this.groupedMessages.delete(groupedId)\<close>.\<close>

definition finish :: "task \<Rightarrow> service \<Rightarrow> service" where
  "finish tk st = st\<lparr>groupedMessages := (groupedMessages st)(tk_groupedId tk := None)\<rparr>"

text \<open>The promise that task \<open>k\<close> waits for settles and its continuation runs.\<close>

definition settle :: "gateway \<Rightarrow> nat \<Rightarrow> service \<Rightarrow> service" where
  "settle gw k st =
     (case find (\<lambda>tk. tk_id tk = k) (tasks st) of
        None \<Rightarrow> st
      | Some tk \<Rightarrow>
          let st0 = st\<lparr>tasks := filter (\<lambda>tk. tk_id tk \<noteq> k) (tasks st)\<rparr>
          in case tk_phase tk of
               AwaitTranslate (Inl e) \<Rightarrow> finish tk (catch e st0)
             | AwaitTranslate (Inr translatedText) \<Rightarrow>
                 startSend gw k (tk_groupedId tk) (tk_data tk) (tk_config tk) translatedText st0
             | AwaitSend (Inl e) \<Rightarrow> finish tk (catch e st0)
             | AwaitSend (Inr _) \<Rightarrow> finish tk st0)"

text \<open>
  What the event loop runs: a new-message event for a configured channel or for the legacy
  channel, the settling of an awaited promise, or nothing (time passes).
\<close>

datatype event =
    NewMessageMulti Message ChannelConfig
  | NewMessageLegacy Message
  | Settle nat
  | Tick

definition handle :: "gateway \<Rightarrow> nat \<Rightarrow> event \<Rightarrow> service \<Rightarrow> service" where
  "handle gw now ev st =
     (case ev of
        NewMessageMulti m c \<Rightarrow> handleNewMessageMulti gw now m c st
      | NewMessageLegacy m \<Rightarrow> handleNewMessage gw now m st
      | Settle k \<Rightarrow> settle gw k st
      | Tick \<Rightarrow> st)"

text \<open>Every timer that is due at \<open>now\<close> fires, in the order the timers were armed.\<close>

definition fire_due :: "gateway \<Rightarrow> nat \<Rightarrow> service \<Rightarrow> service" where
  "fire_due gw now st =
     foldl (\<lambda>s tm. fire gw tm s)
       (st\<lparr>timers := filter (\<lambda>tm. \<not> tm_due tm \<le> now) (timers st)\<rparr>)
       (filter (\<lambda>tm. tm_due tm \<le> now) (timers st))"

text \<open>
  A run of the event loop over a schedule of timed events (times in milliseconds). A timer
  armed at time \<open>t\<close> is due at \<open>t + 1000\<close>; before an event at time \<open>t'\<close> is handled,
  the timers due by \<open>t'\<close> have fired. The schedule says when each awaited promise
  settles; what it settles to is the gateway's answer to the call.
\<close>

fun exec :: "gateway \<Rightarrow> service \<Rightarrow> (nat \<times> event) list \<Rightarrow> service" where
  "exec gw st [] = st"
| "exec gw st ((t, ev) # evs) = exec gw (handle gw t ev (fire_due gw t st)) evs"

text \<open>The posts issued so far: the send calls among the gateway calls.\<close>

fun is_post :: "call \<Rightarrow> bool" where
  "is_post (ClientSendMessage _ _) = True"
| "is_post (SendMessage _ _ _) = True"
| "is_post (SendMessageWithMedia _ _ _ _) = True"
| "is_post _ = False"

definition posts :: "service \<Rightarrow> call list" where
  "posts st = filter is_post (calls st)"

section \<open>Example inputs\<close>

text \<open>A gateway on which every call succeeds; a send answers with identifier \<open>500 + i\<close>.\<close>

definition gateway_up :: gateway where
  "gateway_up =
     \<lparr> translate_result = (\<lambda>i txt p. Inr (''[ko] '' @ txt)),
       send_result = (\<lambda>i c. Inr (Some (500 + int i))),
       edit_result = (\<lambda>i c. Inr ()) \<rparr>"

text \<open>A gateway whose translation backend rejects every call.\<close>

definition gateway_down :: gateway where
  "gateway_down =
     \<lparr> translate_result = (\<lambda>i txt p. Inl (Error ''quota exceeded'')),
       send_result = (\<lambda>i c. Inr (Some (500 + int i))),
       edit_result = (\<lambda>i c. Inr ()) \<rparr>"

text \<open>A gateway whose messaging backend rejects every send.\<close>

definition gateway_unreachable :: gateway where
  "gateway_unreachable =
     \<lparr> translate_result = (\<lambda>i txt p. Inr (''[ko] '' @ txt)),
       send_result = (\<lambda>i c. Inl (Error ''flood wait'')),
       edit_result = (\<lambda>i c. Inr ()) \<rparr>"

text \<open>The route \<open>100:5:news\<close> under the catalog \<open>{news: "formal tone"}\<close>.\<close>

definition route_news :: ChannelConfig where
  "route_news =
     \<lparr> sourceId = Num 100, targetTopicId = Num 5, promptKey = ''news'',
       prompt = Text ''formal tone'' \<rparr>"

definition service0 :: service where
  "service0 = init (Num (- 1001)) (Num (- 67890))"

text \<open>The same service after source message 7 was forwarded as destination message 70.\<close>

definition service1 :: service where
  "service1 = service0\<lparr>messageMapping := [7 \<mapsto> 70]\<rparr>"

definition msg_breaking :: Message where
  "msg_breaking =
     \<lparr> message_id = 8, message = Some ''Breaking: markets up'', media = None,
       groupedId = None, replyToMsgId = None \<rparr>"

definition msg_reply :: Message where
  "msg_reply = msg_breaking\<lparr>message_id := 9, replyToMsgId := Some 7\<rparr>"

definition msg_reply_unknown :: Message where
  "msg_reply_unknown = msg_breaking\<lparr>message_id := 9, replyToMsgId := Some 3\<rparr>"

text \<open>A message with a reply reference and neither text nor media.\<close>

definition msg_bare :: Message where
  "msg_bare =
     \<lparr> message_id = 9, message = None, media = None, groupedId = None,
       replyToMsgId = Some 7 \<rparr>"

text \<open>An edit that removed the caption of message 7.\<close>

definition msg_caption_removed :: Message where
  "msg_caption_removed =
     \<lparr> message_id = 7, message = Some [], media = Some (Document 41), groupedId = None,
       replyToMsgId = None \<rparr>"

definition msg_edited :: Message where
  "msg_edited =
     \<lparr> message_id = 7, message = Some ''Breaking: markets down'', media = None,
       groupedId = None, replyToMsgId = None \<rparr>"

text \<open>An album of two photos, the first with a caption, the second a reply to message 7.\<close>

definition album1 :: Message where
  "album1 =
     \<lparr> message_id = 21, message = Some ''hello'', media = Some (Photo 11),
       groupedId = Some ''g1'', replyToMsgId = Some 7 \<rparr>"

definition album2 :: Message where
  "album2 =
     \<lparr> message_id = 22, message = None, media = Some (Photo 12),
       groupedId = Some ''g1'', replyToMsgId = Some 7 \<rparr>"

text \<open>A third member of the album, a document without caption.\<close>

definition album3 :: Message where
  "album3 =
     \<lparr> message_id = 23, message = None, media = Some (Document 13),
       groupedId = Some ''g1'', replyToMsgId = None \<rparr>"

text \<open>
  A message with text and a photo, and a gateway whose first send after the translation is
  rejected while the others succeed.
\<close>

definition msg_photo :: Message where
  "msg_photo =
     \<lparr> message_id = 8, message = Some ''Breaking: markets up'', media = Some (Photo 31),
       groupedId = None, replyToMsgId = None \<rparr>"

definition gateway_retry :: gateway where
  "gateway_retry =
     \<lparr> translate_result = (\<lambda>i txt p. Inr (''[ko] '' @ txt)),
       send_result = (\<lambda>i c. if i = 1 then Inl (Error ''flood wait'')
                            else Inr (Some (500 + int i))),
       edit_result = (\<lambda>i c. Inr ()) \<rparr>"

text \<open>A gateway that rejects every edit.\<close>

definition gateway_no_edit :: gateway where
  "gateway_no_edit =
     \<lparr> translate_result = (\<lambda>i txt p. Inr (''[ko] '' @ txt)),
       send_result = (\<lambda>i c. Inr (Some (500 + int i))),
       edit_result = (\<lambda>i c. Inl (Error ''message not modified'')) \<rparr>"

text \<open>
  The names under which an object of the Node.js runtime inherits a member from
  \<open>Object.prototype\<close>, and a JSON object from keys to strings as property lookup sees it
  (its members in the order of the file, a later duplicate key winning).
\<close>

definition object_prototype :: "string list" where
  "object_prototype =
     [''constructor'', ''__defineGetter__'', ''__defineSetter__'', ''hasOwnProperty'',
      ''__lookupGetter__'', ''__lookupSetter__'', ''isPrototypeOf'',
      ''propertyIsEnumerable'', ''toString'', ''valueOf'', ''__proto__'',
      ''toLocaleString'']"

definition json_object :: "string list \<Rightarrow> (string \<times> string) list \<Rightarrow> string \<Rightarrow> jsval" where
  "json_object proto kvs k =
     (case map_of (rev kvs) k of
        Some s \<Rightarrow> Text s
      | None \<Rightarrow> if k \<in> set proto then Other True else Undefined)"


definition env_example :: "string \<Rightarrow> env" where
  "env_example routes =
     \<lparr> CHANNELS_CONFIG = Some routes, TARGET_GROUP_ID = Some ''-1001'',
       SOURCE_CHANNEL_ID = None, TARGET_CHANNEL_ID = None \<rparr>"

section \<open>Properties of the route list, in the words of the specification\<close>

text \<open>An entry of the route list is complete when its first three fields are there and non-empty.\<close>

definition complete_entry :: "string \<Rightarrow> bool" where
  "complete_entry entry =
     (let fields = split CHR '':'' entry
      in truthy (at fields 0) \<and> truthy (at fields 1) \<and> truthy (at fields 2))"

text \<open>The route a complete entry stands for, under a catalog with the lookup \<open>get\<close>.\<close>

definition route_of :: "(string \<Rightarrow> jsval) \<Rightarrow> string \<Rightarrow> ChannelConfig" where
  "route_of get entry =
     (let fields = split CHR '':'' entry
      in \<lparr> sourceId = parseInt (trim (fields ! 0)),
           targetTopicId = parseInt (trim (fields ! 1)),
           promptKey = trim (fields ! 2),
           prompt = get (trim (fields ! 2)) \<rparr>)"

text \<open>A route is well formed when both identities are numbers and the prompt key is not empty.\<close>

definition well_formed :: "ChannelConfig \<Rightarrow> bool" where
  "well_formed c = (sourceId c \<noteq> NaN \<and> targetTopicId c \<noteq> NaN \<and> promptKey c \<noteq> [])"

text \<open>The store never holds the falsy identifier \<open>0\<close>.\<close>

definition store_ok :: "service \<Rightarrow> bool" where
  "store_ok st = (0 \<notin> ran (messageMapping st))"

section \<open>What a unit of work leaves behind\<close>

text \<open>The error with which the gateway rejects the call that is made as call number \<open>i\<close>, if it does.\<close>

fun rejection :: "gateway \<Rightarrow> nat \<Rightarrow> call \<Rightarrow> error list" where
  "rejection gw i (TranslateToKorean txt p) =
     (case translate_result gw i txt p of Inl e \<Rightarrow> [e] | Inr _ \<Rightarrow> [])"
| "rejection gw i (EditMessage target mid txt) =
     (case edit_result gw i (EditMessage target mid txt) of Inl e \<Rightarrow> [e] | Inr _ \<Rightarrow> [])"
| "rejection gw i c = (case send_result gw i c of Inl e \<Rightarrow> [e] | Inr _ \<Rightarrow> [])"

fun rejections :: "gateway \<Rightarrow> nat \<Rightarrow> call list \<Rightarrow> error list" where
  "rejections gw i [] = []"
| "rejections gw i (c # cs) = rejection gw i c @ rejections gw (Suc i) cs"

text \<open>The calls made between two states of the service.\<close>

definition new_calls :: "service \<Rightarrow> service \<Rightarrow> call list" where
  "new_calls st st' = drop (length (calls st)) (calls st')"

text \<open>
  A unit of work is contained when it leaves of itself only the calls it made, appended to
  the calls made before, the rejections of those calls, appended to the log in the order
  of the calls, and possibly a change of the store: the album buffer, the timers, the
  flushes in progress and the targets are as they were.
\<close>

definition contained :: "gateway \<Rightarrow> service \<Rightarrow> service \<Rightarrow> bool" where
  "contained gw st st' =
     (st' = st\<lparr> calls := calls st @ new_calls st st',
                 logged := logged st @ rejections gw (length (calls st)) (new_calls st st'),
                 messageMapping := messageMapping st' \<rparr>)"

text \<open>
  The store after a unit of work on the source message \<open>src\<close>: it gains the entry for
  \<open>src\<close> when the last call of the unit is a send that the gateway answers with a non-zero
  identifier, and is the store before the unit otherwise.
\<close>

definition recorded :: "gateway \<Rightarrow> int \<Rightarrow> service \<Rightarrow> service \<Rightarrow> (int \<rightharpoonup> int)" where
  "recorded gw src st st' =
     (if new_calls st st' \<noteq> [] \<and> is_post (last (new_calls st st'))
      then (case send_result gw (length (calls st') - 1) (last (new_calls st st')) of
              Inr (Some d) \<Rightarrow>
                if d \<noteq> 0 then (messageMapping st)(src \<mapsto> d) else messageMapping st
            | _ \<Rightarrow> messageMapping st)
      else messageMapping st)"

section \<open>Schedules of album arrivals, in the words of the specification\<close>

text \<open>
  Timed arrivals in which each one comes after the previous one and less than the
  quiescence window of one second after it.
\<close>

fun closely_spaced :: "(nat \<times> Message) list \<Rightarrow> bool" where
  "closely_spaced [] = True"
| "closely_spaced [x] = True"
| "closely_spaced ((t1, m1) # (t2, m2) # rest) =
     (t1 \<le> t2 \<and> t2 < t1 + 1000 \<and> closely_spaced ((t2, m2) # rest))"

text \<open>The new-message events of a list of timed arrivals on one route.\<close>

definition arrivals :: "ChannelConfig \<Rightarrow> (nat \<times> Message) list \<Rightarrow> (nat \<times> event) list" where
  "arrivals c as = map (\<lambda>(t, m). (t, NewMessageMulti m c)) as"

text \<open>A stretch of the schedule in which no message arrives: promises settle and time passes.\<close>

fun no_arrival :: "nat \<times> event \<Rightarrow> bool" where
  "no_arrival (t, Settle k) = True"
| "no_arrival (t, Tick) = True"
| "no_arrival (t, NewMessageMulti m c) = False"
| "no_arrival (t, NewMessageLegacy m) = False"

definition quiet :: "(nat \<times> event) list \<Rightarrow> bool" where
  "quiet evs = list_all no_arrival evs"

text \<open>Nothing is pending: no timer is armed and no flush is in progress.\<close>

definition settled :: "service \<Rightarrow> bool" where
  "settled st = (timers st = [] \<and> tasks st = [])"

text \<open>Both gateways answer every call.\<close>

definition working :: "gateway \<Rightarrow> bool" where
  "working gw =
     ((\<forall>i txt p. \<exists>s. translate_result gw i txt p = Inr s) \<and>
      (\<forall>i c. \<exists>r. send_result gw i c = Inr r))"

section \<open>Stages of a flush\<close>

text \<open>
  The group \<open>g\<close> is collecting: its object \<open>a\<close> holds the members \<open>ms\<close>, the only
  timer is the one armed for it, due at \<open>due\<close>, and no flush is in progress.
\<close>

definition armed :: "string \<Rightarrow> ChannelConfig \<Rightarrow> nat \<Rightarrow> Message list \<Rightarrow> nat \<Rightarrow> service \<Rightarrow> bool" where
  "armed g c a ms due st =
     ((\<exists>h. timers st = [\<lparr> tm_id = h, tm_due = due, tm_groupedId = g, tm_data = a,
                            tm_config = Some c \<rparr>] \<and>
           timeout (heap st a) = Some h) \<and>
      tasks st = [] \<and> groupedMessages st g = Some a \<and> messages (heap st a) = ms)"

text \<open>The calls of one flush of the members \<open>ms\<close> on a working gateway.\<close>

definition flush_calls :: "gateway \<Rightarrow> service \<Rightarrow> ChannelConfig \<Rightarrow> Message list \<Rightarrow> call list" where
  "flush_calls gw st0 c ms =
     (if firstText ms = [] then [groupRequest st0 (Some c) ms []]
      else case translate_result gw (length (calls st0)) (firstText ms) (prompt c) of
             Inr s \<Rightarrow> [TranslateToKorean (firstText ms) (prompt c),
                       groupRequest st0 (Some c) ms s]
           | Inl e \<Rightarrow> [TranslateToKorean (firstText ms) (prompt c)])"

text \<open>
  The group is collected and on its way out: its timer is armed, or its flush waits for the
  translation, or it waits for the send, or it is done.
\<close>

definition flushing ::
  "gateway \<Rightarrow> service \<Rightarrow> string \<Rightarrow> ChannelConfig \<Rightarrow> nat \<Rightarrow> Message list \<Rightarrow> service \<Rightarrow> bool" where
  "flushing gw st0 g c a ms st =
     (targetGroupId st = targetGroupId st0 \<and> messages (heap st a) = ms \<and>
      logged st = logged st0 \<and>
      ((\<exists>tm. timers st = [tm] \<and> tm_groupedId tm = g \<and> tm_data tm = a \<and>
             tm_config tm = Some c \<and> tasks st = [] \<and> calls st = calls st0)
       \<or> (\<exists>k. timers st = [] \<and> firstText ms \<noteq> [] \<and>
              tasks st = [\<lparr> tk_id = k, tk_groupedId = g, tk_data = a, tk_config = Some c,
                             tk_phase = AwaitTranslate
                               (translate_result gw (length (calls st0)) (firstText ms)
                                  (prompt c)) \<rparr>] \<and>
              calls st = calls st0 @ [TranslateToKorean (firstText ms) (prompt c)])
       \<or> (\<exists>k r. timers st = [] \<and>
              tasks st = [\<lparr> tk_id = k, tk_groupedId = g, tk_data = a, tk_config = Some c,
                             tk_phase = AwaitSend (Inr r) \<rparr>] \<and>
              calls st = calls st0 @ flush_calls gw st0 c ms)
       \<or> (timers st = [] \<and> tasks st = [] \<and> calls st = calls st0 @ flush_calls gw st0 c ms)))"

fun awaiting_translation :: "task \<Rightarrow> bool" where
  "awaiting_translation tk = (case tk_phase tk of AwaitTranslate _ \<Rightarrow> True | AwaitSend _ \<Rightarrow> False)"

text \<open>
  The posts made and still to come: one for every armed timer and for every flush that has
  not reached its send.
\<close>

definition pending :: "service \<Rightarrow> nat" where
  "pending st =
     length (timers st) + length (filter awaiting_translation (tasks st)) + length (posts st)"

text \<open>No flush waits on a rejected translation, and the flushes in progress have distinct identities.\<close>

definition tasks_ok :: "service \<Rightarrow> bool" where
  "tasks_ok st =
     ((\<forall>tk \<in> set (tasks st). \<forall>e. tk_phase tk \<noteq> AwaitTranslate (Inl e)) \<and>
      distinct (map tk_id (tasks st)))"

definition machine_ok :: "service \<Rightarrow> bool" where
  "machine_ok st = (tasks_ok st \<and> (\<forall>tk \<in> set (tasks st). tk_id tk < next_task st))"

section \<open>Unfolding rules\<close>

lemmas handler_defs =
  processSingleMessageMulti_def processSingleMessage_def handleEditedMessageMulti_def
  handleEditedMessage_def translateIfPresent_def callTranslate_def callSend_def callEdit_def
  catch_def storeMapping_def singleRequestMulti_def singleRequest_def resolveReply_def
  replyToOrTopic_def handleNewMessageMulti_def handleNewMessage_def

lemmas example_defs =
  gateway_up_def gateway_down_def gateway_unreachable_def route_news_def service0_def
  service1_def init_def msg_breaking_def msg_reply_def msg_reply_unknown_def msg_bare_def
  msg_caption_removed_def msg_edited_def album1_def album2_def album3_def env_example_def
  msg_photo_def gateway_retry_def gateway_no_edit_def

section \<open>New messages outside albums\<close>

text \<open>
  C1. A new-message event with text, no group identifier and no reply reference: the
  translation gateway is called once with the message text and the route's instruction
  text, one send goes to the route's destination, and the store gains the entry from the
  source message identifier to the identifier the send returned. Nothing else in the
  service changes. This holds for a configured route of the multi-channel mode, whose
  destination is its topic in the target group, and for the source of the legacy mode,
  which has no instruction text and whose destination is the target channel. The gateways
  are taken in their working case: the translation answers and the send answers with a
  non-zero identifier.
\<close>

theorem text_message_forwarded_once:
  assumes "truthy (message m)" "\<not> truthy (groupedId m)" "\<not> truthy_id (replyToMsgId m)"
    and "d \<noteq> 0"
  shows "(translate_result gw (length (calls st)) (the (message m)) (prompt c) = Inr tr \<and>
          send_result gw (Suc (length (calls st)))
            (ClientSendMessage (targetGroupId st)
               \<lparr>sp_message = tr,
                sp_file = (case media m of None \<Rightarrow> NoFile | Some f \<Rightarrow> File f),
                sp_replyTo = Some (targetTopicId c)\<rparr>) = Inr (Some d) \<longrightarrow>
          handleNewMessageMulti gw now m c st =
            st\<lparr>calls := calls st @
                  [TranslateToKorean (the (message m)) (prompt c),
                   ClientSendMessage (targetGroupId st)
                     \<lparr>sp_message = tr,
                      sp_file = (case media m of None \<Rightarrow> NoFile | Some f \<Rightarrow> File f),
                      sp_replyTo = Some (targetTopicId c)\<rparr>],
               messageMapping := (messageMapping st)(message_id m \<mapsto> d)\<rparr>)
       \<and> (translate_result gw (length (calls st)) (the (message m)) Undefined = Inr tr \<and>
          send_result gw (Suc (length (calls st)))
            (case media m of
               None \<Rightarrow> SendMessage (targetChannelId st) tr None
             | Some f \<Rightarrow> SendMessageWithMedia (targetChannelId st) tr m None) = Inr (Some d) \<longrightarrow>
          handleNewMessage gw now m st =
            st\<lparr>calls := calls st @
                  [TranslateToKorean (the (message m)) Undefined,
                   (case media m of
                      None \<Rightarrow> SendMessage (targetChannelId st) tr None
                    | Some f \<Rightarrow> SendMessageWithMedia (targetChannelId st) tr m None)],
               messageMapping := (messageMapping st)(message_id m \<mapsto> d)\<rparr>)"
proof (intro conjI impI)
  assume "translate_result gw (length (calls st)) (the (message m)) (prompt c) = Inr tr \<and>
          send_result gw (Suc (length (calls st)))
            (ClientSendMessage (targetGroupId st)
               \<lparr>sp_message = tr,
                sp_file = (case media m of None \<Rightarrow> NoFile | Some f \<Rightarrow> File f),
                sp_replyTo = Some (targetTopicId c)\<rparr>) = Inr (Some d)"
  with assms
  show "handleNewMessageMulti gw now m c st =
            st\<lparr>calls := calls st @
                  [TranslateToKorean (the (message m)) (prompt c),
                   ClientSendMessage (targetGroupId st)
                     \<lparr>sp_message = tr,
                      sp_file = (case media m of None \<Rightarrow> NoFile | Some f \<Rightarrow> File f),
                      sp_replyTo = Some (targetTopicId c)\<rparr>],
               messageMapping := (messageMapping st)(message_id m \<mapsto> d)\<rparr>"
    by (auto simp add: handler_defs)
next
  assume "translate_result gw (length (calls st)) (the (message m)) Undefined = Inr tr \<and>
          send_result gw (Suc (length (calls st)))
            (case media m of
               None \<Rightarrow> SendMessage (targetChannelId st) tr None
             | Some f \<Rightarrow> SendMessageWithMedia (targetChannelId st) tr m None) = Inr (Some d)"
  with assms
  show "handleNewMessage gw now m st =
            st\<lparr>calls := calls st @
                  [TranslateToKorean (the (message m)) Undefined,
                   (case media m of
                      None \<Rightarrow> SendMessage (targetChannelId st) tr None
                    | Some f \<Rightarrow> SendMessageWithMedia (targetChannelId st) tr m None)],
               messageMapping := (messageMapping st)(message_id m \<mapsto> d)\<rparr>"
    by (auto simp add: handler_defs split: option.splits)
qed

theorem text_message_forwarded_once_witness:
  "truthy (message msg_breaking) \<and> \<not> truthy (groupedId msg_breaking) \<and>
   \<not> truthy_id (replyToMsgId msg_breaking) \<and>
   handleNewMessageMulti gateway_up 0 msg_breaking route_news service0 =
     service0\<lparr>calls :=
                [TranslateToKorean ''Breaking: markets up'' (Text ''formal tone''),
                 ClientSendMessage (Num (- 1001))
                   \<lparr>sp_message = ''[ko] Breaking: markets up'', sp_file = NoFile,
                    sp_replyTo = Some (Num 5)\<rparr>],
              messageMapping := [8 \<mapsto> 501]\<rparr> \<and>
   handleNewMessage gateway_up 0 msg_breaking service0 =
     service0\<lparr>calls :=
                [TranslateToKorean ''Breaking: markets up'' Undefined,
                 SendMessage (Num (- 67890)) ''[ko] Breaking: markets up'' None],
              messageMapping := [8 \<mapsto> 501]\<rparr> \<and>
   handleNewMessage gateway_up 0 msg_photo service0 =
     service0\<lparr>calls :=
                [TranslateToKorean ''Breaking: markets up'' Undefined,
                 SendMessageWithMedia (Num (- 67890)) ''[ko] Breaking: markets up'' msg_photo
                   None],
              messageMapping := [8 \<mapsto> 501]\<rparr>"
  using text_message_forwarded_once
          [of msg_breaking 501 gateway_up service0 route_news "''[ko] Breaking: markets up''" 0]
        text_message_forwarded_once
          [of msg_photo 501 gateway_up service0 route_news "''[ko] Breaking: markets up''" 0]
  by (simp add: example_defs)

text \<open>
  C10. A new-message event outside any album that carries neither text nor media is
  dropped: the service is left exactly as it was, so no gateway is called and the store
  does not change. This holds for the multi-channel and for the legacy handler.
\<close>

theorem empty_message_dropped:
  assumes "\<not> truthy (groupedId m)" "\<not> truthy (message m)" "media m = None"
  shows "handleNewMessageMulti gw now m c st = st \<and> handleNewMessage gw now m st = st"
  using assms by (simp add: handler_defs)

theorem empty_message_dropped_witness:
  "\<not> truthy (groupedId msg_bare) \<and> \<not> truthy (message msg_bare) \<and> media msg_bare = None \<and>
   handleNewMessageMulti gateway_up 0 msg_bare route_news service1 = service1 \<and>
   handleNewMessage gateway_up 0 msg_bare service1 = service1"
  using empty_message_dropped [of msg_bare gateway_up 0 route_news service1]
  by (simp add: msg_bare_def)

lemma truthy_id_iff: "truthy_id x \<longleftrightarrow> (\<exists>d. x = Some d \<and> d \<noteq> 0)"
  by (cases x) auto


section \<open>Replies\<close>




section \<open>Edits\<close>

text \<open>
  C3, as the code has it. An edited-message event whose source identifier has no entry in
  the store leaves the service as it was: no translation and no messaging call. With an
  entry, what follows depends on the text of the edited message. When it has text and the
  translation answers, the translation gateway is called once, with the route's
  instruction text (with none in the legacy mode), and exactly one edit call goes to the
  mapped destination message, with the fresh translation. When it has text and the
  translation is rejected, the translation call is the only call: no edit is made. When it
  has no text, the translation gateway is not called and exactly one edit call goes to the
  mapped destination message, with the empty text.
\<close>

theorem edit_follows_store:
  "(messageMapping st (message_id m) = None \<longrightarrow>
      handleEditedMessageMulti gw m c st = st \<and> handleEditedMessage gw m st = st)
 \<and> (messageMapping st (message_id m) = Some d \<and> d \<noteq> 0 \<longrightarrow>
      (truthy (message m) \<and>
       translate_result gw (length (calls st)) (the (message m)) (prompt c) = Inr tr \<longrightarrow>
         calls (handleEditedMessageMulti gw m c st) =
           calls st @ [TranslateToKorean (the (message m)) (prompt c),
                       EditMessage (targetGroupId st) d tr])
    \<and> (truthy (message m) \<and>
       translate_result gw (length (calls st)) (the (message m)) (prompt c) = Inl e \<longrightarrow>
         calls (handleEditedMessageMulti gw m c st) =
           calls st @ [TranslateToKorean (the (message m)) (prompt c)])
    \<and> (\<not> truthy (message m) \<longrightarrow>
         calls (handleEditedMessageMulti gw m c st) =
           calls st @ [EditMessage (targetGroupId st) d []])
    \<and> (truthy (message m) \<and>
       translate_result gw (length (calls st)) (the (message m)) Undefined = Inr tr \<longrightarrow>
         calls (handleEditedMessage gw m st) =
           calls st @ [TranslateToKorean (the (message m)) Undefined,
                       EditMessage (targetChannelId st) d tr])
    \<and> (truthy (message m) \<and>
       translate_result gw (length (calls st)) (the (message m)) Undefined = Inl e \<longrightarrow>
         calls (handleEditedMessage gw m st) =
           calls st @ [TranslateToKorean (the (message m)) Undefined])
    \<and> (\<not> truthy (message m) \<longrightarrow>
         calls (handleEditedMessage gw m st) =
           calls st @ [EditMessage (targetChannelId st) d []]))"
proof (intro conjI impI)
  show "handleEditedMessageMulti gw m c st = st"
    if "messageMapping st (message_id m) = None"
    using that by (simp add: handleEditedMessageMulti_def)
  show "handleEditedMessage gw m st = st"
    if "messageMapping st (message_id m) = None"
    using that by (simp add: handleEditedMessage_def)
next
  assume "messageMapping st (message_id m) = Some d \<and> d \<noteq> 0"
  then have entry: "messageMapping st (message_id m) = Some d" "d \<noteq> 0" by simp_all
  show "calls (handleEditedMessageMulti gw m c st) =
          calls st @ [TranslateToKorean (the (message m)) (prompt c),
                      EditMessage (targetGroupId st) d tr]"
    if "truthy (message m) \<and>
        translate_result gw (length (calls st)) (the (message m)) (prompt c) = Inr tr"
    using that entry
    by (simp add: handleEditedMessageMulti_def translateIfPresent_def callTranslate_def
          callEdit_def catch_def split: sum.splits)
  show "calls (handleEditedMessageMulti gw m c st) =
          calls st @ [TranslateToKorean (the (message m)) (prompt c)]"
    if "truthy (message m) \<and>
        translate_result gw (length (calls st)) (the (message m)) (prompt c) = Inl e"
    using that entry
    by (simp add: handleEditedMessageMulti_def translateIfPresent_def callTranslate_def
          catch_def)
  show "calls (handleEditedMessageMulti gw m c st) =
          calls st @ [EditMessage (targetGroupId st) d []]"
    if "\<not> truthy (message m)"
    using that entry
    by (simp add: handleEditedMessageMulti_def translateIfPresent_def
          callEdit_def catch_def split: sum.splits)
  show "calls (handleEditedMessage gw m st) =
          calls st @ [TranslateToKorean (the (message m)) Undefined,
                      EditMessage (targetChannelId st) d tr]"
    if "truthy (message m) \<and>
        translate_result gw (length (calls st)) (the (message m)) Undefined = Inr tr"
    using that entry
    by (simp add: handleEditedMessage_def translateIfPresent_def callTranslate_def
          callEdit_def catch_def split: sum.splits)
  show "calls (handleEditedMessage gw m st) =
          calls st @ [TranslateToKorean (the (message m)) Undefined]"
    if "truthy (message m) \<and>
        translate_result gw (length (calls st)) (the (message m)) Undefined = Inl e"
    using that entry
    by (simp add: handleEditedMessage_def translateIfPresent_def callTranslate_def
          catch_def)
  show "calls (handleEditedMessage gw m st) =
          calls st @ [EditMessage (targetChannelId st) d []]"
    if "\<not> truthy (message m)"
    using that entry
    by (simp add: handleEditedMessage_def translateIfPresent_def
          callEdit_def catch_def split: sum.splits)
qed

theorem edit_follows_store_witness:
  "messageMapping service1 (message_id msg_edited) = Some 70 \<and>
   calls (handleEditedMessageMulti gateway_up msg_edited route_news service1) =
     [TranslateToKorean ''Breaking: markets down'' (Text ''formal tone''),
      EditMessage (Num (- 1001)) 70 ''[ko] Breaking: markets down''] \<and>
   calls (handleEditedMessage gateway_up msg_edited service1) =
     [TranslateToKorean ''Breaking: markets down'' Undefined,
      EditMessage (Num (- 67890)) 70 ''[ko] Breaking: markets down''] \<and>
   calls (handleEditedMessageMulti gateway_down msg_edited route_news service1) =
     [TranslateToKorean ''Breaking: markets down'' (Text ''formal tone'')] \<and>
   calls (handleEditedMessage gateway_down msg_edited service1) =
     [TranslateToKorean ''Breaking: markets down'' Undefined] \<and>
   calls (handleEditedMessage gateway_up msg_caption_removed service1) =
     [EditMessage (Num (- 67890)) 70 []] \<and>
   handleEditedMessageMulti gateway_up msg_edited route_news service0 = service0 \<and>
   handleEditedMessage gateway_up msg_edited service0 = service0"
  using edit_follows_store
          [where st = service1 and m = msg_edited and gw = gateway_up and c = route_news
             and d = 70 and tr = "''[ko] Breaking: markets down''"]
        edit_follows_store
          [where st = service1 and m = msg_edited and gw = gateway_down and c = route_news
             and d = 70 and e = "Error ''quota exceeded''"]
        edit_follows_store
          [where st = service1 and m = msg_caption_removed and gw = gateway_up
             and c = route_news and d = 70]
        edit_follows_store
          [where st = service0 and m = msg_edited and gw = gateway_up and c = route_news]
  by (simp add: example_defs)

text \<open>
  The claim as written fails when the edit removed the text: the entry is there, the edit
  call is made, and the translation gateway is not invoked.
\<close>

theorem edit_follows_store_counterexample:
  "calls (handleEditedMessageMulti gateway_up msg_caption_removed route_news service1) =
     [EditMessage (Num (- 1001)) 70 []]"
  by (simp add: handler_defs example_defs)

section \<open>Configuration\<close>

lemma parseEntry_complete:
  "complete_entry entry \<Longrightarrow>
     \<exists>w. parseEntry (Value get) entry acc =
           Inr (fst acc @ [route_of get entry], snd acc @ w)"
  by (auto simp add: parseEntry_def complete_entry_def route_of_def js_get_def Let_def at_def
           split: if_splits)

lemma parseEntry_incomplete:
  "\<not> complete_entry entry \<Longrightarrow>
     parseEntry prompts entry acc =
       Inr (fst acc, snd acc @ [Warn (''Invalid channel config entry: '' @ entry)])"
  by (auto simp add: parseEntry_def complete_entry_def Let_def)

lemma parseEntries_value:
  "\<exists>lg. parseEntries (Value get) entries acc =
          Inr (fst acc @ map (route_of get) (filter complete_entry entries), lg) \<and>
        set (snd acc) \<subseteq> set lg \<and>
        (\<forall>entry \<in> set entries. \<not> complete_entry entry \<longrightarrow>
           Warn (''Invalid channel config entry: '' @ entry) \<in> set lg)"
proof (induction entries arbitrary: acc)
  case Nil
  show ?case by (cases acc) simp
next
  case (Cons x entries)
  show ?case
  proof (cases "complete_entry x")
    case True
    then obtain w where w: "parseEntry (Value get) x acc =
        Inr (fst acc @ [route_of get x], snd acc @ w)"
      using parseEntry_complete by blast
    from Cons.IH [of "(fst acc @ [route_of get x], snd acc @ w)"]
    obtain lg where lg:
      "parseEntries (Value get) entries (fst acc @ [route_of get x], snd acc @ w) =
         Inr ((fst acc @ [route_of get x]) @ map (route_of get) (filter complete_entry entries),
              lg)"
      "set (snd acc @ w) \<subseteq> set lg"
      "\<forall>entry \<in> set entries. \<not> complete_entry entry \<longrightarrow>
         Warn (''Invalid channel config entry: '' @ entry) \<in> set lg"
      by auto
    show ?thesis
      using True w lg by auto
  next
    case False
    then have w: "parseEntry (Value get) x acc =
        Inr (fst acc, snd acc @ [Warn (''Invalid channel config entry: '' @ x)])"
      by (rule parseEntry_incomplete)
    from Cons.IH [of "(fst acc, snd acc @ [Warn (''Invalid channel config entry: '' @ x)])"]
    obtain lg where lg:
      "parseEntries (Value get) entries
         (fst acc, snd acc @ [Warn (''Invalid channel config entry: '' @ x)]) =
         Inr (fst acc @ map (route_of get) (filter complete_entry entries), lg)"
      "set (snd acc @ [Warn (''Invalid channel config entry: '' @ x)]) \<subseteq> set lg"
      "\<forall>entry \<in> set entries. \<not> complete_entry entry \<longrightarrow>
         Warn (''Invalid channel config entry: '' @ entry) \<in> set lg"
      by auto
    show ?thesis
      using False w lg by auto
  qed
qed


lemma loadPrompts_parsed: "loadPrompts proto (Parsed (Value get)) = Value get"
  by (simp add: loadPrompts_def loadPrompts_try_def object_keys_def)

text \<open>
  C7, as the code has it. With a non-empty \<open>CHANNELS_CONFIG\<close>: startup aborts when
  \<open>TARGET_GROUP_ID\<close> is absent or empty; it aborts when no entry is complete; otherwise
  the route list is, in order, the routes of the complete entries, and every other entry
  is skipped with a warning. An entry is complete when its first three fields are there
  and non-empty: the identities of a complete entry are what \<open>parseInt\<close> makes of the
  fields, which may be \<open>NaN\<close>, and fields after the third are ignored. The prompt
  catalog is any value but \<open>null\<close>, with the lookup \<open>get\<close>.
\<close>

theorem routes_from_complete_entries:
  assumes "truthy (CHANNELS_CONFIG e)"
  shows "(\<not> truthy (TARGET_GROUP_ID e) \<longrightarrow>
            parseChannelConfiguration (Value get) e =
              Inl (Error ''TARGET_GROUP_ID is required when using CHANNELS_CONFIG''))
       \<and> (truthy (TARGET_GROUP_ID e) \<and>
            filter complete_entry (split CHR '','' (the (CHANNELS_CONFIG e))) = [] \<longrightarrow>
            parseChannelConfiguration (Value get) e =
              Inl (Error ''No valid channels configured in CHANNELS_CONFIG''))
       \<and> (truthy (TARGET_GROUP_ID e) \<and>
            filter complete_entry (split CHR '','' (the (CHANNELS_CONFIG e))) \<noteq> [] \<longrightarrow>
            (\<exists>cf. parseChannelConfiguration (Value get) e = Inr cf \<and>
                  cfg_channels cf =
                    map (route_of get)
                      (filter complete_entry (split CHR '','' (the (CHANNELS_CONFIG e)))) \<and>
                  (\<forall>entry \<in> set (split CHR '','' (the (CHANNELS_CONFIG e))).
                      \<not> complete_entry entry \<longrightarrow>
                      Warn (''Invalid channel config entry: '' @ entry) \<in> set (cfg_log cf))))"
proof -
  let ?entries = "split CHR '','' (the (CHANNELS_CONFIG e))"
  obtain lg where p: "parseEntries (Value get) ?entries ([], []) =
      Inr (map (route_of get) (filter complete_entry ?entries), lg)"
    and warns: "\<forall>entry \<in> set ?entries. \<not> complete_entry entry \<longrightarrow>
                 Warn (''Invalid channel config entry: '' @ entry) \<in> set lg"
    using parseEntries_value [of get ?entries "([], [])"] by auto
  show ?thesis
    using assms warns p by (simp add: parseChannelConfiguration_def)
qed

theorem routes_from_complete_entries_witness:
  "truthy (CHANNELS_CONFIG (env_example ''100:5:news,7:8,:9:x'')) \<and>
   filter complete_entry (split CHR '','' ''100:5:news,7:8,:9:x'') = [''100:5:news''] \<and>
   (\<exists>cf. parseChannelConfiguration
           (loadPrompts object_prototype
              (Parsed (Value (json_object object_prototype [(''news'', ''formal tone'')]))))
           (env_example ''100:5:news,7:8,:9:x'') = Inr cf \<and>
         cfg_channels cf = [route_news] \<and>
         Warn ''Invalid channel config entry: 7:8'' \<in> set (cfg_log cf) \<and>
         Warn ''Invalid channel config entry: :9:x'' \<in> set (cfg_log cf))"
proof -
  have f: "filter complete_entry (split CHR '','' ''100:5:news,7:8,:9:x'') = [''100:5:news'']"
    by code_simp
  have s: "split CHR '','' ''100:5:news,7:8,:9:x'' = [''100:5:news'', ''7:8'', '':9:x'']"
    by code_simp
  have n: "\<not> complete_entry ''7:8''" "\<not> complete_entry '':9:x''"
    by code_simp+
  have r: "route_of (json_object object_prototype [(''news'', ''formal tone'')]) ''100:5:news''
             = route_news"
    by code_simp
  show ?thesis
    using routes_from_complete_entries
            [of "env_example ''100:5:news,7:8,:9:x''"
                "json_object object_prototype [(''news'', ''formal tone'')]"]
          f s n r
    by (auto simp add: env_example_def loadPrompts_parsed)
qed

text \<open>
  The claim as written fails on an entry whose first field is not a number and which has
  a fourth field: it is kept, the fourth field is ignored, and the route list holds a
  route whose source identity is \<open>NaN\<close>.
\<close>

theorem routes_from_complete_entries_counterexample:
  "parseChannelConfiguration (loadPrompts object_prototype Missing)
     (env_example ''abc:5:news:extra'') =
     Inr \<lparr> cfg_targetGroupId = Some (Num (- 1001)),
           cfg_channels =
             [\<lparr>sourceId = NaN, targetTopicId = Num 5, promptKey = ''news'',
               prompt = Undefined\<rparr>],
           cfg_useLegacyMode = False, cfg_useDirectIds = False,
           cfg_sourceChannelId = None, cfg_targetChannelId = None,
           cfg_log = [Warn (''Prompt key '' @ [CHR 0x27] @ ''news'' @ [CHR 0x27] @
                            '' not found in prompts.json, will use default'')] \<rparr>
   \<and> \<not> well_formed
         \<lparr>sourceId = NaN, targetTopicId = Num 5, promptKey = ''news'', prompt = Undefined\<rparr>"
  by code_simp






section \<open>Albums: what each step leaves alone\<close>

lemma collect_frame [simp]:
  "calls (collect now m gid cfg st) = calls st"
  "logged (collect now m gid cfg st) = logged st"
  "messageMapping (collect now m gid cfg st) = messageMapping st"
  "targetGroupId (collect now m gid cfg st) = targetGroupId st"
  "targetChannelId (collect now m gid cfg st) = targetChannelId st"
  "tasks (collect now m gid cfg st) = tasks st"
  "next_task (collect now m gid cfg st) = next_task st"
  by (simp_all add: collect_def Let_def)

lemma startSend_frame [simp]:
  "messageMapping (startSend gw k gid a cfg s st) = messageMapping st"
  "targetGroupId (startSend gw k gid a cfg s st) = targetGroupId st"
  "targetChannelId (startSend gw k gid a cfg s st) = targetChannelId st"
  "timers (startSend gw k gid a cfg s st) = timers st"
  "heap (startSend gw k gid a cfg s st) = heap st"
  "logged (startSend gw k gid a cfg s st) = logged st"
  "groupedMessages (startSend gw k gid a cfg s st) = groupedMessages st"
  "next_task (startSend gw k gid a cfg s st) = next_task st"
  by (simp_all add: startSend_def callSend_def)

lemma startSend_calls [simp]:
  "calls (startSend gw k gid a cfg s st) =
     calls st @ [groupRequest st cfg (messages (heap st a)) s]"
  by (simp add: startSend_def callSend_def)

lemma startSend_tasks [simp]:
  "tasks (startSend gw k gid a cfg s st) =
     tasks st @ [\<lparr> tk_id = k, tk_groupedId = gid, tk_data = a, tk_config = cfg,
                   tk_phase = AwaitSend (send_result gw (length (calls st))
                                 (groupRequest st cfg (messages (heap st a)) s)) \<rparr>]"
  by (simp add: startSend_def callSend_def)

lemma fire_frame [simp]:
  "messageMapping (fire gw tm st) = messageMapping st"
  "targetGroupId (fire gw tm st) = targetGroupId st"
  "targetChannelId (fire gw tm st) = targetChannelId st"
  "timers (fire gw tm st) = timers st"
  "heap (fire gw tm st) = heap st"
  "logged (fire gw tm st) = logged st"
  "groupedMessages (fire gw tm st) = groupedMessages st"
  "next_task (fire gw tm st) = Suc (next_task st)"
  by (simp_all add: fire_def Let_def callTranslate_def)

lemma finish_frame [simp]:
  "messageMapping (finish tk st) = messageMapping st"
  "targetGroupId (finish tk st) = targetGroupId st"
  "targetChannelId (finish tk st) = targetChannelId st"
  "timers (finish tk st) = timers st"
  "tasks (finish tk st) = tasks st"
  "heap (finish tk st) = heap st"
  "logged (finish tk st) = logged st"
  "calls (finish tk st) = calls st"
  "next_task (finish tk st) = next_task st"
  by (simp_all add: finish_def)

lemma settle_frame [simp]:
  "messageMapping (settle gw k st) = messageMapping st"
  "targetGroupId (settle gw k st) = targetGroupId st"
  "targetChannelId (settle gw k st) = targetChannelId st"
  "timers (settle gw k st) = timers st"
  "heap (settle gw k st) = heap st"
  "next_task (settle gw k st) = next_task st"
  by (simp_all add: settle_def Let_def catch_def split: option.splits phase.splits sum.splits)

lemma fire_due_none:
  assumes "\<forall>tm \<in> set (timers st). now < tm_due tm"
  shows "fire_due gw now st = st"
proof -
  have "filter (\<lambda>tm. tm_due tm \<le> now) (timers st) = []"
    using assms by (auto simp add: filter_empty_conv)
  moreover have "filter (\<lambda>tm. \<not> tm_due tm \<le> now) (timers st) = timers st"
    using assms by (auto simp add: filter_id_conv)
  ultimately show ?thesis by (simp add: fire_due_def)
qed

lemma foldl_fire_frame:
  "messageMapping (foldl (\<lambda>s tm. fire gw tm s) st tms) = messageMapping st \<and>
   targetGroupId (foldl (\<lambda>s tm. fire gw tm s) st tms) = targetGroupId st \<and>
   timers (foldl (\<lambda>s tm. fire gw tm s) st tms) = timers st \<and>
   heap (foldl (\<lambda>s tm. fire gw tm s) st tms) = heap st \<and>
   logged (foldl (\<lambda>s tm. fire gw tm s) st tms) = logged st \<and>
   groupedMessages (foldl (\<lambda>s tm. fire gw tm s) st tms) = groupedMessages st"
  by (induction tms arbitrary: st) simp_all

lemma fire_due_frame [simp]:
  "messageMapping (fire_due gw now st) = messageMapping st"
  "targetGroupId (fire_due gw now st) = targetGroupId st"
  "heap (fire_due gw now st) = heap st"
  "logged (fire_due gw now st) = logged st"
  "groupedMessages (fire_due gw now st) = groupedMessages st"
  "timers (fire_due gw now st) = filter (\<lambda>tm. \<not> tm_due tm \<le> now) (timers st)"
  by (simp_all add: fire_due_def foldl_fire_frame)

section \<open>Albums: collecting a burst\<close>

lemma collect_opens:
  assumes "timers st = []" "tasks st = []" "groupedMessages st g = None"
  shows "armed g c (next_ref st) [m] (now + 1000) (collect now m g (Some c) st)"
  using assms by (simp add: armed_def collect_def Let_def)

lemma collect_appends:
  assumes "armed g c a ms due st"
  shows "armed g c a (ms @ [m]) (now + 1000) (collect now m g (Some c) st)"
  using assms by (auto simp add: armed_def collect_def Let_def)

lemma arrival_while_armed:
  assumes "armed g c a ms due st" "t < due" "groupedId m = Some g" "g \<noteq> []"
  shows "armed g c a (ms @ [m]) (t + 1000) (handle gw t (NewMessageMulti m c) (fire_due gw t st))"
    and "calls (handle gw t (NewMessageMulti m c) (fire_due gw t st)) = calls st"
    and "logged (handle gw t (NewMessageMulti m c) (fire_due gw t st)) = logged st"
    and "targetGroupId (handle gw t (NewMessageMulti m c) (fire_due gw t st)) = targetGroupId st"
    and "next_task (handle gw t (NewMessageMulti m c) (fire_due gw t st)) = next_task st"
proof -
  have "\<forall>tm \<in> set (timers st). t < tm_due tm"
    using assms(1,2) by (auto simp add: armed_def)
  then have idle: "fire_due gw t st = st" by (rule fire_due_none)
  have h: "handle gw t (NewMessageMulti m c) st = collect t m g (Some c) st"
    using assms(3,4) by (simp add: handle_def handleNewMessageMulti_def)
  show "armed g c a (ms @ [m]) (t + 1000) (handle gw t (NewMessageMulti m c) (fire_due gw t st))"
    using collect_appends [OF assms(1)] by (simp add: idle h)
  show "calls (handle gw t (NewMessageMulti m c) (fire_due gw t st)) = calls st"
    and "logged (handle gw t (NewMessageMulti m c) (fire_due gw t st)) = logged st"
    and "targetGroupId (handle gw t (NewMessageMulti m c) (fire_due gw t st)) = targetGroupId st"
    and "next_task (handle gw t (NewMessageMulti m c) (fire_due gw t st)) = next_task st"
    by (simp_all add: idle h)
qed

lemma burst_while_armed:
  assumes "armed g c a ms (t0 + 1000) st" "closely_spaced ((t0, m0) # as)"
    and "\<forall>(t, m) \<in> set as. groupedId m = Some g" "g \<noteq> []"
  shows "armed g c a (ms @ map snd as) (fst (last ((t0, m0) # as)) + 1000)
           (exec gw st (arrivals c as)) \<and>
         calls (exec gw st (arrivals c as)) = calls st \<and>
         logged (exec gw st (arrivals c as)) = logged st \<and>
         targetGroupId (exec gw st (arrivals c as)) = targetGroupId st \<and>
         next_task (exec gw st (arrivals c as)) = next_task st"
  using assms
proof (induction as arbitrary: t0 m0 st ms)
  case Nil
  then show ?case by (simp add: arrivals_def)
next
  case (Cons x as)
  obtain t1 m1 where x: "x = (t1, m1)" by (cases x)
  let ?st = "handle gw t1 (NewMessageMulti m1 c) (fire_due gw t1 st)"
  from Cons.prems(2) x have t1: "t1 < t0 + 1000" and sp: "closely_spaced ((t1, m1) # as)"
    by simp_all
  from Cons.prems(3) x have g1: "groupedId m1 = Some g"
    and gs: "\<forall>(t, m) \<in> set as. groupedId m = Some g" by simp_all
  note step = arrival_while_armed [OF Cons.prems(1) t1 g1 Cons.prems(4), of gw]
  from Cons.IH [OF step(1) sp gs Cons.prems(4)] step(2,3,4,5)
  show ?case by (simp add: x arrivals_def)
qed

lemma burst_from_idle:
  assumes "timers st = []" "tasks st = []" "groupedMessages st g = None"
    and "as \<noteq> []" "closely_spaced as"
    and "\<forall>(t, m) \<in> set as. groupedId m = Some g" "g \<noteq> []"
  shows "armed g c (next_ref st) (map snd as) (fst (last as) + 1000)
           (exec gw st (arrivals c as)) \<and>
         calls (exec gw st (arrivals c as)) = calls st \<and>
         logged (exec gw st (arrivals c as)) = logged st \<and>
         targetGroupId (exec gw st (arrivals c as)) = targetGroupId st \<and>
         next_task (exec gw st (arrivals c as)) = next_task st"
proof -
  obtain t0 m0 as' where as: "as = (t0, m0) # as'"
    using assms(4) by (cases as) auto
  let ?st = "collect t0 m0 g (Some c) st"
  have idle: "fire_due gw t0 st = st"
    using assms(1) by (simp add: fire_due_none)
  have g0: "groupedId m0 = Some g" using assms(6) as by simp
  have first: "handle gw t0 (NewMessageMulti m0 c) (fire_due gw t0 st) = ?st"
    using g0 assms(7) by (simp add: idle handle_def handleNewMessageMulti_def)
  have a0: "armed g c (next_ref st) [m0] (t0 + 1000) ?st"
    using assms(1,2,3) by (rule collect_opens)
  have rest: "\<forall>(t, m) \<in> set as'. groupedId m = Some g" using assms(6) as by simp
  from burst_while_armed [OF a0 _ rest assms(7), of m0 gw] assms(5) as first
  show ?thesis by (simp add: arrivals_def)
qed

section \<open>Albums: the flush of a collected group\<close>

lemma working_translate: "working gw \<Longrightarrow> \<exists>s. translate_result gw i txt p = Inr s"
  by (simp add: working_def)

lemma working_send: "working gw \<Longrightarrow> \<exists>r. send_result gw i c = Inr r"
  by (simp add: working_def)

lemma groupRequest_target:
  "targetGroupId st = targetGroupId st0 \<Longrightarrow>
     groupRequest st (Some c) ms s = groupRequest st0 (Some c) ms s"
  by (simp add: groupRequest_def)

lemma armed_flushing:
  assumes "armed g c a ms due st" "calls st = calls st0" "logged st = logged st0"
    "targetGroupId st = targetGroupId st0"
  shows "flushing gw st0 g c a ms st"
  using assms by (auto simp add: armed_def flushing_def)

lemma fire_due_single:
  assumes "timers st = [tm]" "tm_due tm \<le> now"
  shows "fire_due gw now st = fire gw tm (st\<lparr>timers := []\<rparr>)"
  using assms by (simp add: fire_due_def)

lemma fire_due_idle: "timers st = [] \<Longrightarrow> fire_due gw now st = st"
  by (simp add: fire_due_none)

lemma flushing_fire_due:
  assumes w: "working gw" and f: "flushing gw st0 g c a ms st"
  shows "flushing gw st0 g c a ms (fire_due gw now st)"
proof (cases "timers st = []")
  case True
  then show ?thesis using f by (simp add: fire_due_idle)
next
  case False
  with f obtain tm where tm: "timers st = [tm]" "tm_groupedId tm = g" "tm_data tm = a"
      "tm_config tm = Some c" "tasks st = []" "calls st = calls st0"
    and fr: "targetGroupId st = targetGroupId st0" "messages (heap st a) = ms"
      "logged st = logged st0"
    by (auto simp add: flushing_def)
  show ?thesis
  proof (cases "tm_due tm \<le> now")
    case False
    then have "fire_due gw now st = st" using tm(1) by (simp add: fire_due_none)
    then show ?thesis using f by simp
  next
    case True
    have fd: "fire_due gw now st = fire gw tm (st\<lparr>timers := []\<rparr>)"
      using tm(1) True by (rule fire_due_single)
    show ?thesis
    proof (cases "firstText ms = []")
      case True
      obtain r where r: "send_result gw (length (calls st0))
          (groupRequest st0 (Some c) ms []) = Inr r"
        using working_send [OF w] by blast
      have gr: "groupRequest (st\<lparr>timers := [], next_task := Suc (next_task st)\<rparr>) (Some c) ms []
                  = groupRequest st0 (Some c) ms []"
        using fr(1) by (simp add: groupRequest_def)
      show ?thesis
        using True tm fr r gr
        by (simp add: fd flushing_def fire_def Let_def flush_calls_def)
    next
      case False
      then show ?thesis
        using tm fr
        by (simp add: fd flushing_def fire_def Let_def callTranslate_def)
    qed
  qed
qed

lemma flushing_settle:
  assumes w: "working gw" and f: "flushing gw st0 g c a ms st"
  shows "flushing gw st0 g c a ms (settle gw k st)"
proof -
  from f have fr: "targetGroupId st = targetGroupId st0" "messages (heap st a) = ms"
      "logged st = logged st0"
    by (auto simp add: flushing_def)
  from f consider
      (armed) "tasks st = []"
    | (translating) k' where "timers st = []" "firstText ms \<noteq> []"
        "tasks st = [\<lparr> tk_id = k', tk_groupedId = g, tk_data = a, tk_config = Some c,
                       tk_phase = AwaitTranslate
                         (translate_result gw (length (calls st0)) (firstText ms) (prompt c)) \<rparr>]"
        "calls st = calls st0 @ [TranslateToKorean (firstText ms) (prompt c)]"
    | (sending) k' r where "timers st = []"
        "tasks st = [\<lparr> tk_id = k', tk_groupedId = g, tk_data = a, tk_config = Some c,
                       tk_phase = AwaitSend (Inr r) \<rparr>]"
        "calls st = calls st0 @ flush_calls gw st0 c ms"
    by (auto simp add: flushing_def)
  then show ?thesis
  proof cases
    case armed
    then have "settle gw k st = st" by (simp add: settle_def)
    then show ?thesis using f by simp
  next
    case translating
    show ?thesis
    proof (cases "k = k'")
      case False
      then have "settle gw k st = st" using translating by (simp add: settle_def)
      then show ?thesis using f by simp
    next
      case True
      obtain s where s: "translate_result gw (length (calls st0)) (firstText ms) (prompt c) = Inr s"
        using working_translate [OF w] by blast
      obtain r where r: "send_result gw (Suc (length (calls st0)))
          (groupRequest st0 (Some c) ms s) = Inr r"
        using working_send [OF w] by blast
      have gr: "groupRequest (st\<lparr>tasks := []\<rparr>) (Some c) ms s = groupRequest st0 (Some c) ms s"
        using fr(1) by (simp add: groupRequest_def)
      show ?thesis
        using True translating fr s r gr
        by (simp add: settle_def flushing_def flush_calls_def)
    qed
  next
    case sending
    show ?thesis
    proof (cases "k = k'")
      case False
      then have "settle gw k st = st" using sending by (simp add: settle_def)
      then show ?thesis using f by simp
    next
      case True
      then show ?thesis using sending fr by (simp add: settle_def flushing_def)
    qed
  qed
qed

lemma flushing_quiet:
  assumes "working gw" "flushing gw st0 g c a ms st" "quiet evs"
  shows "flushing gw st0 g c a ms (exec gw st evs)"
  using assms(2,3)
proof (induction evs arbitrary: st)
  case Nil
  then show ?case by simp
next
  case (Cons x evs)
  obtain t ev where x: "x = (t, ev)" by (cases x)
  from Cons.prems(2) x have na: "no_arrival (t, ev)" and q: "quiet evs"
    by (simp_all add: quiet_def)
  have fd: "flushing gw st0 g c a ms (fire_due gw t st)"
    using assms(1) Cons.prems(1) by (rule flushing_fire_due)
  have "flushing gw st0 g c a ms (handle gw t ev (fire_due gw t st))"
    using na fd flushing_settle [OF assms(1) fd]
    by (cases ev) (simp_all add: handle_def)
  from Cons.IH [OF this q] show ?case by (simp add: x)
qed

lemma flushing_settled:
  assumes "flushing gw st0 g c a ms st" "settled st"
  shows "calls st = calls st0 @ flush_calls gw st0 c ms" "logged st = logged st0"
  using assms by (auto simp add: flushing_def settled_def)

section \<open>Albums: counting posts\<close>

lemma is_post_groupRequest [simp]: "is_post (groupRequest st cfg ms s)"
  by (simp add: groupRequest_def split: option.splits)

lemma fire_pending:
  assumes "working gw" "tasks_ok st" "\<forall>tk \<in> set (tasks st). tk_id tk < next_task st"
  shows "pending (fire gw tm st) = Suc (pending st)"
    and "tasks_ok (fire gw tm st)"
    and "\<forall>tk \<in> set (tasks (fire gw tm st)). tk_id tk < next_task (fire gw tm st)"
proof -
  obtain s where s: "translate_result gw (length (calls st))
      (firstText (messages (heap st (tm_data tm))))
      (case tm_config tm of None \<Rightarrow> Undefined | Some c \<Rightarrow> prompt c) = Inr s"
    using working_translate [OF assms(1)] by blast
  show "pending (fire gw tm st) = Suc (pending st)"
    using s by (simp add: fire_def Let_def callTranslate_def pending_def posts_def)
  show "tasks_ok (fire gw tm st)"
    using s assms(2,3) by (auto simp add: fire_def Let_def callTranslate_def tasks_ok_def)
  show "\<forall>tk \<in> set (tasks (fire gw tm st)). tk_id tk < next_task (fire gw tm st)"
    using assms(3) by (auto simp add: fire_def Let_def callTranslate_def)
qed

lemma foldl_fire_pending:
  assumes "working gw" "tasks_ok st" "\<forall>tk \<in> set (tasks st). tk_id tk < next_task st"
  shows "pending (foldl (\<lambda>s tm. fire gw tm s) st tms) = pending st + length tms \<and>
         tasks_ok (foldl (\<lambda>s tm. fire gw tm s) st tms) \<and>
         (\<forall>tk \<in> set (tasks (foldl (\<lambda>s tm. fire gw tm s) st tms)).
             tk_id tk < next_task (foldl (\<lambda>s tm. fire gw tm s) st tms))"
  using assms(2,3)
proof (induction tms arbitrary: st)
  case Nil
  then show ?case by simp
next
  case (Cons tm tms)
  note f = fire_pending [OF assms(1) Cons.prems, of tm]
  from Cons.IH [OF f(2,3)] f(1) show ?case by simp
qed

lemma fire_due_pending:
  assumes "working gw" "machine_ok st"
  shows "pending (fire_due gw now st) = pending st" and "machine_ok (fire_due gw now st)"
proof -
  let ?st = "st\<lparr>timers := filter (\<lambda>tm. \<not> tm_due tm \<le> now) (timers st)\<rparr>"
  let ?due = "filter (\<lambda>tm. tm_due tm \<le> now) (timers st)"
  have ok: "tasks_ok ?st" "\<forall>tk \<in> set (tasks ?st). tk_id tk < next_task ?st"
    using assms(2) by (simp_all add: machine_ok_def tasks_ok_def)
  have "length (timers st) = length ?due + length (timers ?st)"
    using sum_length_filter_compl [of "\<lambda>tm. tm_due tm \<le> now" "timers st"] by simp
  then have "pending ?st + length ?due = pending st"
    by (simp add: pending_def posts_def)
  with foldl_fire_pending [OF assms(1) ok, of ?due]
  show "pending (fire_due gw now st) = pending st" and "machine_ok (fire_due gw now st)"
    by (simp_all add: fire_due_def machine_ok_def)
qed

lemma find_task:
  assumes "find (\<lambda>tk. tk_id tk = k) tks = Some tk" "distinct (map tk_id tks)"
  shows "length (filter awaiting_translation (filter (\<lambda>tk. tk_id tk \<noteq> k) tks)) +
           (if awaiting_translation tk then 1 else 0) =
         length (filter awaiting_translation tks)"
    and "tk \<in> set tks" and "tk_id tk = k"
  using assms
proof (induction tks)
  case Nil
  {
    case 1 then show ?case by simp
  next
    case 2 then show ?case by simp
  next
    case 3 then show ?case by simp
  }
next
  case (Cons x tks)
  {
    case 1
    show ?case
    proof (cases "tk_id x = k")
      case True
      with 1 have "x = tk" by simp
      moreover have "filter (\<lambda>tk. tk_id tk \<noteq> k) tks = tks"
      proof -
        have "\<forall>y \<in> set tks. tk_id y \<noteq> k"
        proof
          fix y assume "y \<in> set tks"
          then have "tk_id y \<in> tk_id ` set tks" by (rule imageI)
          with True 1(2) show "tk_id y \<noteq> k" by auto
        qed
        then show ?thesis by (simp add: filter_id_conv)
      qed
      ultimately show ?thesis using True by simp
    next
      case False
      with 1 Cons.IH(1) show ?thesis by simp
    qed
  next
    case 2
    then show ?case using Cons.IH(2) by (auto split: if_splits)
  next
    case 3
    then show ?case using Cons.IH(3) by (auto split: if_splits)
  }
qed

lemma settle_pending:
  assumes "working gw" "machine_ok st"
  shows "pending (settle gw k st) = pending st" and "machine_ok (settle gw k st)"
proof -
  show "pending (settle gw k st) = pending st"
  proof (cases "find (\<lambda>tk. tk_id tk = k) (tasks st)")
    case None
    then show ?thesis by (simp add: settle_def)
  next
    case (Some tk)
    have d: "distinct (map tk_id (tasks st))"
      using assms(2) by (simp add: machine_ok_def tasks_ok_def)
    note ft = find_task [OF Some d]
    have nofail: "\<forall>e. tk_phase tk \<noteq> AwaitTranslate (Inl e)"
      using assms(2) ft(2) by (simp add: machine_ok_def tasks_ok_def)
    show ?thesis
    proof (cases "tk_phase tk")
      case (AwaitTranslate r)
      with nofail obtain s where "r = Inr s" by (cases r) auto
      with AwaitTranslate Some ft(1) show ?thesis
        by (simp add: settle_def pending_def posts_def)
    next
      case (AwaitSend r)
      with Some ft(1) show ?thesis
        by (cases r) (simp_all add: settle_def pending_def posts_def catch_def finish_def)
    qed
  qed
  show "machine_ok (settle gw k st)"
  proof (cases "find (\<lambda>tk. tk_id tk = k) (tasks st)")
    case None
    then show ?thesis using assms(2) by (simp add: settle_def)
  next
    case (Some tk)
    have ok: "tasks_ok st" "\<forall>tk \<in> set (tasks st). tk_id tk < next_task st"
      using assms(2) by (simp_all add: machine_ok_def)
    note ft = find_task [OF Some] 
    have k: "k < next_task st" using ft(2,3) ok by (auto simp add: tasks_ok_def)
    have d: "distinct (map tk_id (filter (\<lambda>tk. tk_id tk \<noteq> k) (tasks st)))"
      using ok(1) by (simp add: tasks_ok_def distinct_map_filter)
    have nk: "k \<notin> tk_id ` set (filter (\<lambda>tk. tk_id tk \<noteq> k) (tasks st))" by auto
    have sub: "set (filter (\<lambda>tk. tk_id tk \<noteq> k) (tasks st)) \<subseteq> set (tasks st)" by auto
    show ?thesis
    proof (cases "tk_phase tk")
      case (AwaitTranslate r)
      show ?thesis
      proof (cases r)
        case (Inl e)
        with AwaitTranslate Some ok d sub show ?thesis
          by (auto simp add: settle_def machine_ok_def tasks_ok_def catch_def finish_def)
      next
        case (Inr s)
        with AwaitTranslate Some ok k d nk sub show ?thesis
          by (auto simp add: settle_def machine_ok_def tasks_ok_def)
      qed
    next
      case (AwaitSend r)
      with Some ok d sub show ?thesis
        by (cases r) (auto simp add: settle_def machine_ok_def tasks_ok_def catch_def finish_def)
    qed
  qed
qed

lemma quiet_pending:
  assumes "working gw" "machine_ok st" "quiet evs"
  shows "pending (exec gw st evs) = pending st \<and> machine_ok (exec gw st evs) \<and>
         set (timers (exec gw st evs)) \<subseteq> set (timers st)"
  using assms(2,3)
proof (induction evs arbitrary: st)
  case Nil
  then show ?case by simp
next
  case (Cons x evs)
  obtain t ev where x: "x = (t, ev)" by (cases x)
  from Cons.prems(2) x have na: "no_arrival (t, ev)" and q: "quiet evs"
    by (simp_all add: quiet_def)
  note fd = fire_due_pending [OF assms(1) Cons.prems(1), of t]
  note se = settle_pending [OF assms(1) fd(2)]
  let ?st = "handle gw t ev (fire_due gw t st)"
  have h: "pending ?st = pending st" "machine_ok ?st" "set (timers ?st) \<subseteq> set (timers st)"
    using na fd se by (cases ev; auto simp add: handle_def)+
  from Cons.IH [OF h(2) q] h(1,3) show ?case by (auto simp add: x)
qed

lemma collect_pending:
  assumes "timers st = []" "machine_ok st"
  shows "pending (collect now m gid cfg st) = Suc (pending st)"
    and "machine_ok (collect now m gid cfg st)"
  using assms
  by (simp_all add: collect_def Let_def pending_def posts_def machine_ok_def tasks_ok_def
        split: option.splits)

lemma exec_append: "exec gw st (xs @ ys) = exec gw (exec gw st xs) ys"
  by (induction xs arbitrary: st) auto

lemma mediaFiles_map_filter: "mediaFiles ms = List.map_filter media ms"
  by (induction ms) (auto simp add: mediaFiles_def List.map_filter_def)

lemma posts_append_calls:
  "calls st = calls st0 @ cs \<Longrightarrow> posts st = posts st0 @ filter is_post cs"
  by (simp add: posts_def)

lemma armed_pending:
  assumes "armed g c a ms due st"
  shows "pending st = Suc (length (posts st))" and "machine_ok st"
    and "\<forall>tm \<in> set (timers st). tm_due tm \<le> due"
  using assms by (auto simp add: armed_def pending_def machine_ok_def tasks_ok_def)

lemma settled_pending: "settled st \<Longrightarrow> pending st = length (posts st)"
  by (simp add: settled_def pending_def)

lemma armed_flush_completes:
  assumes "armed g c a ms due st" "due \<le> t1"
  shows "settled (exec gw st [(t1, Tick), (t2, Settle (next_task st)),
                              (t3, Settle (next_task st))])"
proof -
  from assms(1) obtain h where tm: "timers st = [\<lparr> tm_id = h, tm_due = due, tm_groupedId = g,
      tm_data = a, tm_config = Some c \<rparr>]" and tk: "tasks st = []"
    by (auto simp add: armed_def)
  let ?tm = "\<lparr> tm_id = h, tm_due = due, tm_groupedId = g, tm_data = a, tm_config = Some c \<rparr>"
  let ?st1 = "fire gw ?tm (st\<lparr>timers := []\<rparr>)"
  have fd: "fire_due gw t1 st = ?st1"
    using tm assms(2) by (simp add: fire_due_single)
  have t1: "timers ?st1 = []"
    by (simp add: fire_def Let_def callTranslate_def startSend_def callSend_def)
  let ?st2 = "settle gw (next_task st) ?st1"
  have t2: "timers ?st2 = []"
    using t1
    by (simp add: settle_def Let_def catch_def finish_def startSend_def callSend_def
          split: option.splits phase.splits sum.splits)
  let ?st3 = "settle gw (next_task st) ?st2"
  have t3: "timers ?st3 = []"
    using t2
    by (simp add: settle_def Let_def catch_def finish_def startSend_def callSend_def
          split: option.splits phase.splits sum.splits)
  have k3: "tasks ?st3 = []"
    using tk
    by (cases "translate_result gw (length (calls st)) (firstText (messages (heap st a))) (prompt c)";
        cases "send_result gw (length (calls st))
                 (groupRequest (st\<lparr>timers := [], next_task := Suc (next_task st)\<rparr>) (Some c)
                    (messages (heap st a)) [])")
       (auto simp add: fire_def Let_def callTranslate_def startSend_def callSend_def
          settle_def catch_def finish_def split: sum.splits)
  have "exec gw st [(t1, Tick), (t2, Settle (next_task st)), (t3, Settle (next_task st))] = ?st3"
    using t1 t2 by (simp add: fd handle_def fire_due_idle)
  then show ?thesis using t3 k3 by (simp add: settled_def)
qed

text \<open>
  One album in a service with nothing else pending, on a working gateway: the members
  arrive, each less than one second after the previous one, and afterwards promises settle
  and time passes in any order. The flush does come to its end: when the timer has fired
  and the two promises of the flush have settled, nothing is pending. And once nothing is
  pending any more, exactly one post has been added. Its files are the media of the
  members in arrival order, and its text is the translation of the text of the first
  member that has text (empty when no member has text). When one more member arrives at
  least one second after the last of them, whatever has settled in between, then once
  nothing is pending exactly two posts have been added; what they hold depends on whether
  the first flush had ended when the member arrived.
\<close>

lemma album_alone_posted_once:
  assumes "working gw" "settled st0" "groupedMessages st0 g = None" "g \<noteq> []"
    and "as \<noteq> []" "closely_spaced as" "\<forall>(t, m) \<in> set as. groupedId m = Some g"
    and "quiet rest"
  shows "settled (exec gw st0
                    (arrivals c as @
                     [(fst (last as) + 1000, Tick), (t2, Settle (next_task st0)),
                      (t3, Settle (next_task st0))]))
       \<and> (settled (exec gw st0 (arrivals c as @ rest)) \<longrightarrow>
           (\<exists>caption.
              posts (exec gw st0 (arrivals c as @ rest)) =
                posts st0 @
                  [ClientSendMessage (targetGroupId st0)
                     \<lparr>sp_message = caption,
                      sp_file = (if List.map_filter media (map snd as) = [] then NoFile
                                 else Files (List.map_filter media (map snd as))),
                      sp_replyTo = Some (targetTopicId c)\<rparr>] \<and>
              (case find (\<lambda>m. truthy (message m)) (map snd as) of
                 None \<Rightarrow> caption = []
               | Some m \<Rightarrow>
                   translate_result gw (length (calls st0)) (the (message m)) (prompt c)
                     = Inr caption)))
       \<and> (quiet mid \<and> fst (last as) + 1000 \<le> tN \<and> groupedId mN = Some g \<and>
          settled (exec gw st0 (arrivals c as @ mid @ (tN, NewMessageMulti mN c) # rest)) \<longrightarrow>
            length (posts (exec gw st0
                      (arrivals c as @ mid @ (tN, NewMessageMulti mN c) # rest))) =
              length (posts st0) + 2)"
proof (intro conjI impI)
  let ?ms = "map snd as"
  let ?a = "next_ref st0"
  let ?st1 = "exec gw st0 (arrivals c as)"
  from assms(2) have idle: "timers st0 = []" "tasks st0 = []"
    by (simp_all add: settled_def)
  note burst = burst_from_idle [OF idle assms(3,5,6,7,4), of c gw]
  then have armed1: "armed g c ?a ?ms (fst (last as) + 1000) ?st1"
    and calls1: "calls ?st1 = calls st0" and logged1: "logged ?st1 = logged st0"
    and target1: "targetGroupId ?st1 = targetGroupId st0"
    and task1: "next_task ?st1 = next_task st0"
    by simp_all
  show "settled (exec gw st0
                    (arrivals c as @
                     [(fst (last as) + 1000, Tick), (t2, Settle (next_task st0)),
                      (t3, Settle (next_task st0))]))"
    using armed_flush_completes [OF armed1 order_refl, of gw t2 t3]
    by (simp add: exec_append task1)
  {
    let ?st = "exec gw st0 (arrivals c as @ rest)"
    assume fin: "settled ?st"
    have "flushing gw st0 g c ?a ?ms ?st1"
      using armed1 calls1 logged1 target1 by (rule armed_flushing)
    then have "flushing gw st0 g c ?a ?ms ?st"
      using flushing_quiet [OF assms(1) _ assms(8)] by (simp add: exec_append)
    then have c: "calls ?st = calls st0 @ flush_calls gw st0 c ?ms"
      using fin by (rule flushing_settled)
    obtain s where s: "translate_result gw (length (calls st0)) (firstText ?ms) (prompt c) = Inr s"
      using working_translate [OF assms(1)] by blast
    define caption where "caption = (if firstText ?ms = [] then [] else s)"
    have p: "posts ?st = posts st0 @ [groupRequest st0 (Some c) ?ms caption]"
      using posts_append_calls [OF c] s
      by (simp add: flush_calls_def caption_def)
    have t: "case find (\<lambda>m. truthy (message m)) ?ms of
               None \<Rightarrow> caption = []
             | Some m \<Rightarrow> translate_result gw (length (calls st0)) (the (message m)) (prompt c)
                          = Inr caption"
    proof (cases "find (\<lambda>m. truthy (message m)) ?ms")
      case None
      then show ?thesis by (simp add: caption_def firstText_def)
    next
      case (Some m)
      then have "truthy (message m)" by (auto simp add: find_Some_iff)
      then have "the (message m) \<noteq> []" by (cases "message m") auto
      with Some s show ?thesis by (simp add: caption_def firstText_def)
    qed
    have "groupRequest st0 (Some c) ?ms caption =
            ClientSendMessage (targetGroupId st0)
              \<lparr>sp_message = caption,
               sp_file = (if List.map_filter media ?ms = [] then NoFile
                          else Files (List.map_filter media ?ms)),
               sp_replyTo = Some (targetTopicId c)\<rparr>"
      by (simp add: groupRequest_def mediaFiles_map_filter)
    with p t
    show "\<exists>caption.
              posts ?st =
                posts st0 @
                  [ClientSendMessage (targetGroupId st0)
                     \<lparr>sp_message = caption,
                      sp_file = (if List.map_filter media ?ms = [] then NoFile
                                 else Files (List.map_filter media ?ms)),
                      sp_replyTo = Some (targetTopicId c)\<rparr>] \<and>
              (case find (\<lambda>m. truthy (message m)) ?ms of
                 None \<Rightarrow> caption = []
               | Some m \<Rightarrow>
                   translate_result gw (length (calls st0)) (the (message m)) (prompt c)
                     = Inr caption)"
      by auto
  }
  {
    let ?st = "exec gw st0 (arrivals c as @ mid @ (tN, NewMessageMulti mN c) # rest)"
    assume a: "quiet mid \<and> fst (last as) + 1000 \<le> tN \<and> groupedId mN = Some g \<and> settled ?st"
    then have mid: "quiet mid" and late: "fst (last as) + 1000 \<le> tN"
      and gN: "groupedId mN = Some g" and fin: "settled ?st"
      by simp_all
    note ap = armed_pending [OF armed1]
    let ?st2 = "exec gw ?st1 mid"
    note q2 = quiet_pending [OF assms(1) ap(2) mid]
    have due2: "\<forall>tm \<in> set (timers ?st2). tm_due tm \<le> tN"
      using q2 ap(3) late by fastforce
    let ?st3 = "fire_due gw tN ?st2"
    have t3: "timers ?st3 = []"
      using due2 by (simp add: filter_empty_conv)
    have p3: "pending ?st3 = pending ?st2" and ok3: "machine_ok ?st3"
      using fire_due_pending [OF assms(1), of ?st2 tN] q2 by simp_all
    let ?st4 = "handle gw tN (NewMessageMulti mN c) ?st3"
    have h4: "?st4 = collect tN mN g (Some c) ?st3"
      using gN assms(4) by (simp add: handle_def handleNewMessageMulti_def)
    have p4: "pending ?st4 = Suc (pending ?st3)" and ok4: "machine_ok ?st4"
      using collect_pending [OF t3 ok3, of tN mN g "Some c"] h4 by simp_all
    have st: "?st = exec gw ?st4 rest"
      by (simp add: exec_append)
    note q5 = quiet_pending [OF assms(1) ok4 assms(8)]
    have "pending ?st = Suc (Suc (length (posts ?st1)))"
      using q5 p4 p3 q2 ap(1) st by simp
    moreover have "posts ?st1 = posts st0" using calls1 by (simp add: posts_def)
    ultimately show "length (posts ?st) = length (posts st0) + 2"
      using settled_pending [OF fin] by simp
  }
qed

lemma album_alone_posted_once_example:
  "working gateway_up \<and>
   closely_spaced [(0, album1), (200, album2)] \<and>
   settled (exec gateway_up service0
              (arrivals route_news [(0, album1), (200, album2)] @
               [(1200, Tick), (1900, Settle 0), (2400, Settle 0)])) \<and>
   posts (exec gateway_up service0
            (arrivals route_news [(0, album1), (200, album2)] @
             [(1200, Tick), (1900, Settle 0), (2400, Settle 0)])) =
     [ClientSendMessage (Num (- 1001))
        \<lparr>sp_message = ''[ko] hello'', sp_file = Files [Photo 11, Photo 12],
         sp_replyTo = Some (Num 5)\<rparr>] \<and>
   settled (exec gateway_up service0
              (arrivals route_news [(0, album1), (200, album2)] @
               [(1200, Tick), (1900, Settle 0), (2400, Settle 0)] @
               (2500, NewMessageMulti album3 route_news) #
               [(3500, Tick), (3600, Settle 1)])) \<and>
   length (posts (exec gateway_up service0
              (arrivals route_news [(0, album1), (200, album2)] @
               [(1200, Tick), (1900, Settle 0), (2400, Settle 0)] @
               (2500, NewMessageMulti album3 route_news) #
               [(3500, Tick), (3600, Settle 1)]))) = 2"
proof -
  have w: "working gateway_up" by (simp add: working_def gateway_up_def)
  have s0: "settled service0" by (simp add: settled_def service0_def init_def)
  have g0: "groupedMessages service0 ''g1'' = None" by (simp add: service0_def init_def)
  have cs: "closely_spaced [(0, album1), (200, album2)]" by simp
  have gr: "\<forall>(t, m) \<in> set [(0 :: nat, album1), (200, album2)]. groupedId m = Some ''g1''"
    by (simp add: album1_def album2_def)
  have q1: "quiet [(1200, Tick), (1900, Settle 0), (2400, Settle 0)]" by (simp add: quiet_def)
  have q2: "quiet [(3500, Tick), (3600, Settle 1)]" by (simp add: quiet_def)
  have f1: "settled (exec gateway_up service0
              (arrivals route_news [(0, album1), (200, album2)] @
               [(1200, Tick), (1900, Settle 0), (2400, Settle 0)]))"
    by code_simp
  have f2: "settled (exec gateway_up service0
              (arrivals route_news [(0, album1), (200, album2)] @
               [(1200, Tick), (1900, Settle 0), (2400, Settle 0)] @
               (2500, NewMessageMulti album3 route_news) #
               [(3500, Tick), (3600, Settle 1)]))"
    by code_simp
  have g3: "groupedId album3 = Some ''g1''" by (simp add: album3_def)
  have tr: "translate_result gateway_up (length (calls service0)) ''hello'' (prompt route_news)
              = Inr ''[ko] hello''"
    by (simp add: gateway_up_def)
  from album_alone_posted_once [OF w s0 g0 _ _ cs gr q1, where c = route_news] f1
  have p1: "\<exists>caption.
      posts (exec gateway_up service0
            (arrivals route_news [(0, album1), (200, album2)] @
             [(1200, Tick), (1900, Settle 0), (2400, Settle 0)])) =
        posts service0 @
          [ClientSendMessage (targetGroupId service0)
             \<lparr>sp_message = caption,
              sp_file = (if List.map_filter media (map snd [(0 :: nat, album1), (200, album2)]) = []
                         then NoFile
                         else Files (List.map_filter media
                                 (map snd [(0 :: nat, album1), (200, album2)]))),
              sp_replyTo = Some (targetTopicId route_news)\<rparr>] \<and>
      (case find (\<lambda>m. truthy (message m)) (map snd [(0 :: nat, album1), (200, album2)]) of
         None \<Rightarrow> caption = []
       | Some m \<Rightarrow>
           translate_result gateway_up (length (calls service0)) (the (message m))
             (prompt route_news) = Inr caption)"
    by simp
  then have p1': "posts (exec gateway_up service0
            (arrivals route_news [(0, album1), (200, album2)] @
             [(1200, Tick), (1900, Settle 0), (2400, Settle 0)])) =
     [ClientSendMessage (Num (- 1001))
        \<lparr>sp_message = ''[ko] hello'', sp_file = Files [Photo 11, Photo 12],
         sp_replyTo = Some (Num 5)\<rparr>]"
    by (auto simp add: album1_def album2_def List.map_filter_def posts_def service0_def init_def
          gateway_up_def route_news_def)
  from album_alone_posted_once [OF w s0 g0 _ _ cs gr q2, where c = route_news
        and mid = "[(1200, Tick), (1900, Settle 0), (2400, Settle 0)]" and tN = 2500
        and mN = album3] q1 g3 f2
  have p2: "length (posts (exec gateway_up service0
              (arrivals route_news [(0, album1), (200, album2)] @
               [(1200, Tick), (1900, Settle 0), (2400, Settle 0)] @
               (2500, NewMessageMulti album3 route_news) #
               [(3500, Tick), (3600, Settle 1)]))) = 2"
    by (simp add: posts_def service0_def init_def)
  from w cs f1 p1' f2 p2 show ?thesis by blast
qed

section \<open>A member that arrives a second after the others\<close>

text \<open>
  C2 at a late member. Two members of an album arrive at 0 and at 200, and their timer
  fires at 1200; the third member arrives at 1300, more than a second after the second.
  When the flush of the first two has ended by then, there are two separate posts: the
  first two members with the translated caption, and the third member alone. When the
  flush is still waiting for the translation, the third member is appended to the array
  the flush holds and a new timer is armed on the same object: the send takes the media
  of all three members, and the new timer, firing at 2300, flushes the same array again.
  The two posts are the same post of all three members, not two separate ones.
\<close>

theorem late_member_posts_album_twice:
  "posts (exec gateway_up service0
            (arrivals route_news [(0, album1), (200, album2)] @
             [(1200, Tick), (1250, Settle 0), (1290, Settle 0)] @
             arrivals route_news [(1300, album3)] @
             [(2300, Tick), (2400, Settle 1)])) =
     [ClientSendMessage (Num (- 1001))
        \<lparr>sp_message = ''[ko] hello'', sp_file = Files [Photo 11, Photo 12],
         sp_replyTo = Some (Num 5)\<rparr>,
      ClientSendMessage (Num (- 1001))
        \<lparr>sp_message = [], sp_file = Files [Document 13], sp_replyTo = Some (Num 5)\<rparr>] \<and>
   posts (exec gateway_up service0
            (arrivals route_news [(0, album1), (200, album2), (1300, album3)] @
             [(1900, Settle 0), (2100, Settle 0), (2300, Tick), (3000, Settle 1),
              (3200, Settle 1)])) =
     [ClientSendMessage (Num (- 1001))
        \<lparr>sp_message = ''[ko] hello'', sp_file = Files [Photo 11, Photo 12, Document 13],
         sp_replyTo = Some (Num 5)\<rparr>,
      ClientSendMessage (Num (- 1001))
        \<lparr>sp_message = ''[ko] hello'', sp_file = Files [Photo 11, Photo 12, Document 13],
         sp_replyTo = Some (Num 5)\<rparr>] \<and>
   settled (exec gateway_up service0
            (arrivals route_news [(0, album1), (200, album2), (1300, album3)] @
             [(1900, Settle 0), (2100, Settle 0), (2300, Tick), (3000, Settle 1),
              (3200, Settle 1)]))"
  by code_simp

section \<open>Albums and the store\<close>

lemma album_events_leave_store:
  assumes "\<forall>(t, ev) \<in> set evs.
             no_arrival (t, ev) \<or> (\<exists>m c. ev = NewMessageMulti m c \<and> truthy (groupedId m))
               \<or> (\<exists>m. ev = NewMessageLegacy m \<and> truthy (groupedId m))"
  shows "messageMapping (exec gw st evs) = messageMapping st"
  using assms
proof (induction evs arbitrary: st)
  case Nil
  then show ?case by simp
next
  case (Cons x evs)
  obtain t ev where x: "x = (t, ev)" by (cases x)
  have "messageMapping (handle gw t ev (fire_due gw t st)) = messageMapping st"
    using Cons.prems x
    by (cases ev) (auto simp add: handle_def handleNewMessageMulti_def handleNewMessage_def)
  with Cons.IH [of "handle gw t ev (fire_due gw t st)"] Cons.prems x
  show ?case by simp
qed

text \<open>
  C5 at an album. The two members of an album arrive 200 ms apart on a working gateway;
  the flush translates the caption and the send succeeds, returning an identifier. The
  album is posted, and the store has no entry for either member: the flush of a group
  does not look at what the send returned. No schedule of album events ever changes the
  store.
\<close>

theorem album_post_not_recorded:
  "posts (exec gateway_up service0
            (arrivals route_news [(0, album1), (200, album2)] @
             [(1200, Tick), (1900, Settle 0), (2400, Settle 0)])) =
     [ClientSendMessage (Num (- 1001))
        \<lparr>sp_message = ''[ko] hello'', sp_file = Files [Photo 11, Photo 12],
         sp_replyTo = Some (Num 5)\<rparr>] \<and>
   send_result gateway_up 1
     (ClientSendMessage (Num (- 1001))
        \<lparr>sp_message = ''[ko] hello'', sp_file = Files [Photo 11, Photo 12],
         sp_replyTo = Some (Num 5)\<rparr>) = Inr (Some 501) \<and>
   messageMapping (exec gateway_up service0
            (arrivals route_news [(0, album1), (200, album2)] @
             [(1200, Tick), (1900, Settle 0), (2400, Settle 0)])) 21 = None \<and>
   messageMapping (exec gateway_up service0
            (arrivals route_news [(0, album1), (200, album2)] @
             [(1200, Tick), (1900, Settle 0), (2400, Settle 0)])) 22 = None"
  by code_simp

section \<open>A member that arrives during the flush\<close>

text \<open>
  C6 at a late member. The first member of an album arrives at time 0 and its timer fires
  at 1000; the flush is waiting for the translation when the second member arrives at
  1200. The group is still in the map, so the member is appended to the array the flush
  holds and a new timer is armed on the same object. The translation settles at 1900 and
  the send takes the media of both members; the send settles at 2100 and the map entry is
  deleted. The new timer fires at 2200 on the same array: both members are translated and
  posted a second time. The legacy handler does the same.
\<close>

theorem album_flushed_twice:
  "posts (exec gateway_up service0
            [(0, NewMessageMulti album1 route_news), (1200, NewMessageMulti album2 route_news),
             (1900, Settle 0), (2100, Settle 0), (2200, Tick), (2900, Settle 1),
             (3100, Settle 1)]) =
     [ClientSendMessage (Num (- 1001))
        \<lparr>sp_message = ''[ko] hello'', sp_file = Files [Photo 11, Photo 12],
         sp_replyTo = Some (Num 5)\<rparr>,
      ClientSendMessage (Num (- 1001))
        \<lparr>sp_message = ''[ko] hello'', sp_file = Files [Photo 11, Photo 12],
         sp_replyTo = Some (Num 5)\<rparr>] \<and>
   posts (exec gateway_up service0
            [(0, NewMessageLegacy album1), (1200, NewMessageLegacy album2),
             (1900, Settle 0), (2100, Settle 0), (2200, Tick), (2900, Settle 1),
             (3100, Settle 1)]) =
     [ClientSendMessage (Num (- 67890))
        \<lparr>sp_message = ''[ko] hello'', sp_file = Files [Photo 11, Photo 12],
         sp_replyTo = None\<rparr>,
      ClientSendMessage (Num (- 67890))
        \<lparr>sp_message = ''[ko] hello'', sp_file = Files [Photo 11, Photo 12],
         sp_replyTo = None\<rparr>]"
  by code_simp

section \<open>Gateway failures\<close>

lemma single_multi_store:
  "messageMapping (processSingleMessageMulti gw m c st) = messageMapping st \<or>
   (\<exists>d. d \<noteq> 0 \<and> calls (processSingleMessageMulti gw m c st) \<noteq> [] \<and>
        is_post (last (calls (processSingleMessageMulti gw m c st))) \<and>
        send_result gw (length (calls (processSingleMessageMulti gw m c st)) - 1)
          (last (calls (processSingleMessageMulti gw m c st))) = Inr (Some d) \<and>
        messageMapping (processSingleMessageMulti gw m c st) =
          (messageMapping st)(message_id m \<mapsto> d))"
  by (cases "truthy (message m)";
      cases "translate_result gw (length (calls st)) (the (message m)) (prompt c)")
     (auto simp add: processSingleMessageMulti_def translateIfPresent_def callTranslate_def
        callSend_def catch_def storeMapping_def singleRequestMulti_def truthy_id_iff
        split: sum.splits option.splits)

lemma single_legacy_store:
  "messageMapping (processSingleMessage gw m st) = messageMapping st \<or>
   (\<exists>d. d \<noteq> 0 \<and> calls (processSingleMessage gw m st) \<noteq> [] \<and>
        is_post (last (calls (processSingleMessage gw m st))) \<and>
        send_result gw (length (calls (processSingleMessage gw m st)) - 1)
          (last (calls (processSingleMessage gw m st))) = Inr (Some d) \<and>
        messageMapping (processSingleMessage gw m st) =
          (messageMapping st)(message_id m \<mapsto> d))"
  by (cases "truthy (message m)";
      cases "translate_result gw (length (calls st)) (the (message m)) Undefined")
     (auto simp add: processSingleMessage_def translateIfPresent_def callTranslate_def
        callSend_def catch_def storeMapping_def singleRequest_def truthy_id_iff
        split: sum.splits option.splits)

lemma edits_store:
  "messageMapping (handleEditedMessageMulti gw m c st) = messageMapping st"
  "messageMapping (handleEditedMessage gw m st) = messageMapping st"
  by (auto simp add: handleEditedMessageMulti_def handleEditedMessage_def translateIfPresent_def
        callTranslate_def callEdit_def catch_def Let_def split: sum.splits prod.splits)

lemma contained_refl: "contained gw st st" "recorded gw src st st = messageMapping st"
  by (simp_all add: contained_def recorded_def new_calls_def)

lemma is_post_singleRequest [simp]:
  "is_post (singleRequestMulti st m c tr)" "is_post (singleRequest st m tr)"
  by (simp_all add: singleRequestMulti_def singleRequest_def split: option.splits)

lemma rejection_post:
  "is_post c \<Longrightarrow> rejection gw i c = (case send_result gw i c of Inl e \<Rightarrow> [e] | Inr _ \<Rightarrow> [])"
  by (cases c) simp_all

lemma single_multi_contained:
  "contained gw st (processSingleMessageMulti gw m c st) \<and>
   messageMapping (processSingleMessageMulti gw m c st) =
     recorded gw (message_id m) st (processSingleMessageMulti gw m c st)"
proof (cases "media m = None \<and> \<not> truthy (message m)")
  case True
  then show ?thesis by (simp add: processSingleMessageMulti_def contained_refl)
next
  case False
  show ?thesis
  proof (cases "truthy (message m)")
    case True
    show ?thesis
    proof (cases "translate_result gw (length (calls st)) (the (message m)) (prompt c)")
      case (Inl e)
      then show ?thesis
        using True
        by (simp add: processSingleMessageMulti_def translateIfPresent_def callTranslate_def
              catch_def contained_def recorded_def new_calls_def)
    next
      case (Inr tr)
      then show ?thesis
        using True
        by (cases "send_result gw (Suc (length (calls st))) (singleRequestMulti st m c tr)")
           (auto simp add: processSingleMessageMulti_def translateIfPresent_def
              callTranslate_def callSend_def catch_def storeMapping_def contained_def
              recorded_def new_calls_def rejection_post truthy_id_iff split: option.splits)
    qed
  next
    case notext: False
    then show ?thesis
      using False
      by (cases "send_result gw (length (calls st)) (singleRequestMulti st m c [])")
         (auto simp add: processSingleMessageMulti_def translateIfPresent_def
            callSend_def catch_def storeMapping_def contained_def
            recorded_def new_calls_def rejection_post truthy_id_iff split: option.splits)
  qed
qed

lemma single_legacy_contained:
  "contained gw st (processSingleMessage gw m st) \<and>
   messageMapping (processSingleMessage gw m st) =
     recorded gw (message_id m) st (processSingleMessage gw m st)"
proof (cases "media m = None \<and> \<not> truthy (message m)")
  case True
  then show ?thesis by (simp add: processSingleMessage_def contained_refl)
next
  case False
  show ?thesis
  proof (cases "truthy (message m)")
    case True
    show ?thesis
    proof (cases "translate_result gw (length (calls st)) (the (message m)) Undefined")
      case (Inl e)
      then show ?thesis
        using True
        by (simp add: processSingleMessage_def translateIfPresent_def callTranslate_def
              catch_def contained_def recorded_def new_calls_def)
    next
      case (Inr tr)
      then show ?thesis
        using True
        by (cases "send_result gw (Suc (length (calls st))) (singleRequest st m tr)";
            cases "send_result gw (Suc (Suc (length (calls st)))) (singleRequest st m tr)")
           (auto simp add: processSingleMessage_def translateIfPresent_def
              callTranslate_def callSend_def catch_def storeMapping_def contained_def
              recorded_def new_calls_def rejection_post truthy_id_iff split: option.splits)
    qed
  next
    case notext: False
    then show ?thesis
      using False
      by (cases "send_result gw (length (calls st)) (singleRequest st m [])";
          cases "send_result gw (Suc (length (calls st))) (singleRequest st m [])")
         (auto simp add: processSingleMessage_def translateIfPresent_def
            callSend_def catch_def storeMapping_def contained_def
            recorded_def new_calls_def rejection_post truthy_id_iff split: option.splits)
  qed
qed

lemma edit_multi_contained:
  "contained gw st (handleEditedMessageMulti gw m c st)"
proof (cases "truthy_id (messageMapping st (message_id m))")
  case False
  then show ?thesis by (simp add: handleEditedMessageMulti_def contained_refl)
next
  case True
  show ?thesis
  proof (cases "truthy (message m)")
    case hastext: True
    then show ?thesis
      using True
      by (cases "translate_result gw (length (calls st)) (the (message m)) (prompt c)")
         (auto simp add: handleEditedMessageMulti_def translateIfPresent_def callTranslate_def
            callEdit_def catch_def contained_def new_calls_def Let_def split: sum.splits)
  next
    case False
    then show ?thesis
      using True
      by (auto simp add: handleEditedMessageMulti_def translateIfPresent_def
            callEdit_def catch_def contained_def new_calls_def Let_def split: sum.splits)
  qed
qed

lemma edit_legacy_contained:
  "contained gw st (handleEditedMessage gw m st)"
proof (cases "truthy_id (messageMapping st (message_id m))")
  case False
  then show ?thesis by (simp add: handleEditedMessage_def contained_refl)
next
  case True
  show ?thesis
  proof (cases "truthy (message m)")
    case hastext: True
    then show ?thesis
      using True
      by (cases "translate_result gw (length (calls st)) (the (message m)) Undefined")
         (auto simp add: handleEditedMessage_def translateIfPresent_def callTranslate_def
            callEdit_def catch_def contained_def new_calls_def Let_def split: sum.splits)
  next
    case False
    then show ?thesis
      using True
      by (auto simp add: handleEditedMessage_def translateIfPresent_def
            callEdit_def catch_def contained_def new_calls_def Let_def split: sum.splits)
  qed
qed

lemma translation_failure_caught:
  assumes "truthy (message m)"
    and "translate_result gw (length (calls st)) (the (message m)) (prompt c) = Inl e"
  shows "processSingleMessageMulti gw m c st =
           st\<lparr>calls := calls st @ [TranslateToKorean (the (message m)) (prompt c)],
              logged := logged st @ [e]\<rparr>"
  using assms by (simp add: handler_defs)

lemma send_failure_caught:
  assumes "truthy (message m)"
    and "translate_result gw (length (calls st)) (the (message m)) (prompt c) = Inr tr"
    and "send_result gw (Suc (length (calls st))) (singleRequestMulti st m c tr) = Inl e"
  shows "processSingleMessageMulti gw m c st =
           st\<lparr>calls := calls st @ [TranslateToKorean (the (message m)) (prompt c),
                                  singleRequestMulti st m c tr],
              logged := logged st @ [e]\<rparr>"
  using assms
  by (simp add: processSingleMessageMulti_def translateIfPresent_def callTranslate_def
        callSend_def catch_def storeMapping_def)

lemma legacy_translation_failure_caught:
  assumes "truthy (message m)"
    and "translate_result gw (length (calls st)) (the (message m)) Undefined = Inl e"
  shows "processSingleMessage gw m st =
           st\<lparr>calls := calls st @ [TranslateToKorean (the (message m)) Undefined],
              logged := logged st @ [e]\<rparr>"
  using assms by (simp add: handler_defs)

lemma legacy_send_failure_caught:
  assumes "truthy (message m)"
    and "translate_result gw (length (calls st)) (the (message m)) Undefined = Inr tr"
    and "send_result gw (Suc (length (calls st))) (singleRequest st m tr) = Inl e"
  shows "\<not> isPhoto m \<longrightarrow>
         processSingleMessage gw m st =
           st\<lparr>calls := calls st @ [TranslateToKorean (the (message m)) Undefined,
                                  singleRequest st m tr],
              logged := logged st @ [e]\<rparr>"
    and "isPhoto m \<and>
         send_result gw (Suc (Suc (length (calls st)))) (singleRequest st m tr) = Inl e' \<longrightarrow>
         processSingleMessage gw m st =
           st\<lparr>calls := calls st @ [TranslateToKorean (the (message m)) Undefined,
                                  singleRequest st m tr, singleRequest st m tr],
              logged := logged st @ [e, e']\<rparr>"
  using assms
  by (simp_all add: processSingleMessage_def translateIfPresent_def callTranslate_def
        callSend_def catch_def storeMapping_def)

lemma flush_failure_caught:
  assumes "find (\<lambda>tk. tk_id tk = k) (tasks st) = Some tk"
    and "tk_phase tk = AwaitTranslate (Inl e) \<or> tk_phase tk = AwaitSend (Inl e)"
  shows "settle gw k st =
           st\<lparr>tasks := filter (\<lambda>tk. tk_id tk \<noteq> k) (tasks st),
              logged := logged st @ [e],
              groupedMessages := (groupedMessages st)(tk_groupedId tk := None)\<rparr>"
  using assms by (auto simp add: settle_def catch_def finish_def)

text \<open>
  C9. A rejected call never leaves its handler: for the two handlers of a message outside
  an album and for the two handlers of an edit, whatever the gateways answer, the state the
  handler returns is the state it was given with the calls it made appended to the calls,
  the rejections of those calls appended to the log in the order of the calls, and
  possibly a change of the store; the album buffer, the timers, the flushes in progress
  and the targets are as they were. The store gains the entry for the message when the
  last call of the handler was a send that returned a non-zero identifier, and is as it
  was otherwise; the edit handlers never change it. When the translation of a text message
  is rejected the handler makes that one call, and when the send is rejected it makes the
  two calls, and the legacy handler repeats the rejected send of a photo once. The flush of
  an album never changes the store: when its translation or its send is rejected, the
  flush ends with the error logged and the group removed, and nothing else changed.
\<close>

theorem gateway_failure_contained:
  "contained gw st (processSingleMessageMulti gw m c st)
 \<and> messageMapping (processSingleMessageMulti gw m c st) =
     recorded gw (message_id m) st (processSingleMessageMulti gw m c st)
 \<and> contained gw st (processSingleMessage gw m st)
 \<and> messageMapping (processSingleMessage gw m st) =
     recorded gw (message_id m) st (processSingleMessage gw m st)
 \<and> contained gw st (handleEditedMessageMulti gw m c st)
 \<and> messageMapping (handleEditedMessageMulti gw m c st) = messageMapping st
 \<and> contained gw st (handleEditedMessage gw m st)
 \<and> messageMapping (handleEditedMessage gw m st) = messageMapping st
 \<and> (truthy (message m) \<and>
    translate_result gw (length (calls st)) (the (message m)) (prompt c) = Inl e \<longrightarrow>
      processSingleMessageMulti gw m c st =
        st\<lparr>calls := calls st @ [TranslateToKorean (the (message m)) (prompt c)],
           logged := logged st @ [e]\<rparr>)
 \<and> (truthy (message m) \<and>
    translate_result gw (length (calls st)) (the (message m)) (prompt c) = Inr tr \<and>
    send_result gw (Suc (length (calls st))) (singleRequestMulti st m c tr) = Inl e \<longrightarrow>
      processSingleMessageMulti gw m c st =
        st\<lparr>calls := calls st @ [TranslateToKorean (the (message m)) (prompt c),
                               singleRequestMulti st m c tr],
           logged := logged st @ [e]\<rparr>)
 \<and> (truthy (message m) \<and>
    translate_result gw (length (calls st)) (the (message m)) Undefined = Inl e \<longrightarrow>
      processSingleMessage gw m st =
        st\<lparr>calls := calls st @ [TranslateToKorean (the (message m)) Undefined],
           logged := logged st @ [e]\<rparr>)
 \<and> (truthy (message m) \<and>
    translate_result gw (length (calls st)) (the (message m)) Undefined = Inr tr \<and>
    send_result gw (Suc (length (calls st))) (singleRequest st m tr) = Inl e \<and>
    \<not> isPhoto m \<longrightarrow>
      processSingleMessage gw m st =
        st\<lparr>calls := calls st @ [TranslateToKorean (the (message m)) Undefined,
                               singleRequest st m tr],
           logged := logged st @ [e]\<rparr>)
 \<and> (truthy (message m) \<and>
    translate_result gw (length (calls st)) (the (message m)) Undefined = Inr tr \<and>
    send_result gw (Suc (length (calls st))) (singleRequest st m tr) = Inl e \<and>
    isPhoto m \<and>
    send_result gw (Suc (Suc (length (calls st)))) (singleRequest st m tr) = Inl e' \<longrightarrow>
      processSingleMessage gw m st =
        st\<lparr>calls := calls st @ [TranslateToKorean (the (message m)) Undefined,
                               singleRequest st m tr, singleRequest st m tr],
           logged := logged st @ [e, e']\<rparr>)
 \<and> messageMapping (fire_due gw now st) = messageMapping st
 \<and> messageMapping (settle gw k st) = messageMapping st
 \<and> (find (\<lambda>tk. tk_id tk = k) (tasks st) = Some tk \<and>
    (tk_phase tk = AwaitTranslate (Inl e) \<or> tk_phase tk = AwaitSend (Inl e)) \<longrightarrow>
      settle gw k st =
        st\<lparr>tasks := filter (\<lambda>tk. tk_id tk \<noteq> k) (tasks st),
           logged := logged st @ [e],
           groupedMessages := (groupedMessages st)(tk_groupedId tk := None)\<rparr>)"
proof -
  note a = single_multi_contained [of gw st m c]
  note b = single_legacy_contained [of gw st m]
  note c = edit_multi_contained [of gw st m c] edits_store(1) [of gw m c st]
  note d = edit_legacy_contained [of gw st m] edits_store(2) [of gw m st]
  note f = translation_failure_caught [of m gw st c e] send_failure_caught [of m gw st c tr e]
  note g = legacy_translation_failure_caught [of m gw st e]
    legacy_send_failure_caught(1) [of m gw st tr e]
    legacy_send_failure_caught(2) [of m gw st tr e e']
  note h = fire_due_frame(1) [of gw now st] settle_frame(1) [of gw k st]
    flush_failure_caught [of k st tk e gw]
  from a b c d f g h show ?thesis by blast
qed

theorem gateway_failure_contained_witness:
  "processSingleMessageMulti gateway_down msg_breaking route_news service1 =
     service1\<lparr>calls := [TranslateToKorean ''Breaking: markets up'' (Text ''formal tone'')],
              logged := [Error ''quota exceeded'']\<rparr> \<and>
   processSingleMessageMulti gateway_unreachable msg_breaking route_news service1 =
     service1\<lparr>calls := [TranslateToKorean ''Breaking: markets up'' (Text ''formal tone''),
                        ClientSendMessage (Num (- 1001))
                          \<lparr>sp_message = ''[ko] Breaking: markets up'', sp_file = NoFile,
                           sp_replyTo = Some (Num 5)\<rparr>],
              logged := [Error ''flood wait'']\<rparr> \<and>
   processSingleMessage gateway_down msg_breaking service1 =
     service1\<lparr>calls := [TranslateToKorean ''Breaking: markets up'' Undefined],
              logged := [Error ''quota exceeded'']\<rparr> \<and>
   processSingleMessage gateway_unreachable msg_breaking service1 =
     service1\<lparr>calls := [TranslateToKorean ''Breaking: markets up'' Undefined,
                        SendMessage (Num (- 67890)) ''[ko] Breaking: markets up'' None],
              logged := [Error ''flood wait'']\<rparr> \<and>
   processSingleMessage gateway_unreachable msg_photo service1 =
     service1\<lparr>calls := [TranslateToKorean ''Breaking: markets up'' Undefined,
                        SendMessageWithMedia (Num (- 67890)) ''[ko] Breaking: markets up''
                          msg_photo None,
                        SendMessageWithMedia (Num (- 67890)) ''[ko] Breaking: markets up''
                          msg_photo None],
              logged := [Error ''flood wait'', Error ''flood wait'']\<rparr> \<and>
   processSingleMessage gateway_retry msg_photo service1 =
     service1\<lparr>calls := [TranslateToKorean ''Breaking: markets up'' Undefined,
                        SendMessageWithMedia (Num (- 67890)) ''[ko] Breaking: markets up''
                          msg_photo None,
                        SendMessageWithMedia (Num (- 67890)) ''[ko] Breaking: markets up''
                          msg_photo None],
              logged := [Error ''flood wait''],
              messageMapping := [7 \<mapsto> 70, 8 \<mapsto> 502]\<rparr> \<and>
   handleEditedMessageMulti gateway_down msg_edited route_news service1 =
     service1\<lparr>calls := [TranslateToKorean ''Breaking: markets down'' (Text ''formal tone'')],
              logged := [Error ''quota exceeded'']\<rparr> \<and>
   handleEditedMessage gateway_no_edit msg_edited service1 =
     service1\<lparr>calls := [TranslateToKorean ''Breaking: markets down'' Undefined,
                        EditMessage (Num (- 67890)) 70 ''[ko] Breaking: markets down''],
              logged := [Error ''message not modified'']\<rparr> \<and>
   settle gateway_down 0
     (exec gateway_down service0 [(0, NewMessageMulti album1 route_news), (1000, Tick)]) =
     (exec gateway_down service0 [(0, NewMessageMulti album1 route_news), (1000, Tick)])
       \<lparr>tasks := [], logged := [Error ''quota exceeded''],
        groupedMessages :=
          (groupedMessages
             (exec gateway_down service0
                [(0, NewMessageMulti album1 route_news), (1000, Tick)]))(''g1'' := None)\<rparr> \<and>
   settle gateway_unreachable 0
     (exec gateway_unreachable service0 [(0, NewMessageLegacy album2), (1000, Tick)]) =
     (exec gateway_unreachable service0 [(0, NewMessageLegacy album2), (1000, Tick)])
       \<lparr>tasks := [], logged := [Error ''flood wait''],
        groupedMessages :=
          (groupedMessages
             (exec gateway_unreachable service0
                [(0, NewMessageLegacy album2), (1000, Tick)]))(''g1'' := None)\<rparr>"
proof (intro conjI)
  show "processSingleMessageMulti gateway_down msg_breaking route_news service1 =
     service1\<lparr>calls := [TranslateToKorean ''Breaking: markets up'' (Text ''formal tone'')],
              logged := [Error ''quota exceeded'']\<rparr>"
    using gateway_failure_contained
            [where gw = gateway_down and st = service1 and m = msg_breaking and c = route_news
               and e = "Error ''quota exceeded''"]
    by (simp add: example_defs)
  show "processSingleMessageMulti gateway_unreachable msg_breaking route_news service1 =
     service1\<lparr>calls := [TranslateToKorean ''Breaking: markets up'' (Text ''formal tone''),
                        ClientSendMessage (Num (- 1001))
                          \<lparr>sp_message = ''[ko] Breaking: markets up'', sp_file = NoFile,
                           sp_replyTo = Some (Num 5)\<rparr>],
              logged := [Error ''flood wait'']\<rparr>"
    using gateway_failure_contained
            [where gw = gateway_unreachable and st = service1 and m = msg_breaking
               and c = route_news and e = "Error ''flood wait''"
               and tr = "''[ko] Breaking: markets up''"]
    by (simp add: example_defs singleRequestMulti_def resolveReply_def replyToOrTopic_def)
  show "processSingleMessage gateway_down msg_breaking service1 =
     service1\<lparr>calls := [TranslateToKorean ''Breaking: markets up'' Undefined],
              logged := [Error ''quota exceeded'']\<rparr>"
    using gateway_failure_contained
            [where gw = gateway_down and st = service1 and m = msg_breaking and c = route_news
               and e = "Error ''quota exceeded''"]
    by (simp add: example_defs)
  show "processSingleMessage gateway_unreachable msg_breaking service1 =
     service1\<lparr>calls := [TranslateToKorean ''Breaking: markets up'' Undefined,
                        SendMessage (Num (- 67890)) ''[ko] Breaking: markets up'' None],
              logged := [Error ''flood wait'']\<rparr>"
    using gateway_failure_contained
            [where gw = gateway_unreachable and st = service1 and m = msg_breaking
               and c = route_news and e = "Error ''flood wait''"
               and tr = "''[ko] Breaking: markets up''"]
    by (simp add: example_defs singleRequest_def resolveReply_def isPhoto_def)
  show "processSingleMessage gateway_unreachable msg_photo service1 =
     service1\<lparr>calls := [TranslateToKorean ''Breaking: markets up'' Undefined,
                        SendMessageWithMedia (Num (- 67890)) ''[ko] Breaking: markets up''
                          msg_photo None,
                        SendMessageWithMedia (Num (- 67890)) ''[ko] Breaking: markets up''
                          msg_photo None],
              logged := [Error ''flood wait'', Error ''flood wait'']\<rparr>"
    using gateway_failure_contained
            [where gw = gateway_unreachable and st = service1 and m = msg_photo
               and c = route_news and e = "Error ''flood wait''"
               and e' = "Error ''flood wait''" and tr = "''[ko] Breaking: markets up''"]
    by (simp add: example_defs singleRequest_def resolveReply_def isPhoto_def)
  show "processSingleMessage gateway_retry msg_photo service1 =
     service1\<lparr>calls := [TranslateToKorean ''Breaking: markets up'' Undefined,
                        SendMessageWithMedia (Num (- 67890)) ''[ko] Breaking: markets up''
                          msg_photo None,
                        SendMessageWithMedia (Num (- 67890)) ''[ko] Breaking: markets up''
                          msg_photo None],
              logged := [Error ''flood wait''],
              messageMapping := [7 \<mapsto> 70, 8 \<mapsto> 502]\<rparr>"
    using gateway_failure_contained
            [where gw = gateway_retry and st = service1 and m = msg_photo and c = route_news]
    by (simp add: example_defs handler_defs isPhoto_def contained_def recorded_def
          new_calls_def)
  show "handleEditedMessageMulti gateway_down msg_edited route_news service1 =
     service1\<lparr>calls := [TranslateToKorean ''Breaking: markets down'' (Text ''formal tone'')],
              logged := [Error ''quota exceeded'']\<rparr>"
    using gateway_failure_contained
            [where gw = gateway_down and st = service1 and m = msg_edited and c = route_news]
    by (simp add: example_defs handler_defs contained_def new_calls_def)
  show "handleEditedMessage gateway_no_edit msg_edited service1 =
     service1\<lparr>calls := [TranslateToKorean ''Breaking: markets down'' Undefined,
                        EditMessage (Num (- 67890)) 70 ''[ko] Breaking: markets down''],
              logged := [Error ''message not modified'']\<rparr>"
    using gateway_failure_contained
            [where gw = gateway_no_edit and st = service1 and m = msg_edited and c = route_news]
    by (simp add: example_defs handler_defs contained_def new_calls_def)
  let ?S = "exec gateway_down service0 [(0, NewMessageMulti album1 route_news), (1000, Tick)]"
  have f: "find (\<lambda>tk. tk_id tk = 0) (tasks ?S) =
             Some \<lparr> tk_id = 0, tk_groupedId = ''g1'', tk_data = 0, tk_config = Some route_news,
                    tk_phase = AwaitTranslate (Inl (Error ''quota exceeded'')) \<rparr>"
    and t: "filter (\<lambda>tk. tk_id tk \<noteq> 0) (tasks ?S) = []" and l: "logged ?S = []"
    by code_simp+
  show "settle gateway_down 0 ?S =
          ?S\<lparr>tasks := [], logged := [Error ''quota exceeded''],
             groupedMessages := (groupedMessages ?S)(''g1'' := None)\<rparr>"
    using gateway_failure_contained
            [where gw = gateway_down and st = ?S and k = 0 and e = "Error ''quota exceeded''"
               and tk = "\<lparr> tk_id = 0, tk_groupedId = ''g1'', tk_data = 0,
                           tk_config = Some route_news,
                           tk_phase = AwaitTranslate (Inl (Error ''quota exceeded'')) \<rparr>"]
          f t l
    by simp
  let ?T = "exec gateway_unreachable service0 [(0, NewMessageLegacy album2), (1000, Tick)]"
  have f: "find (\<lambda>tk. tk_id tk = 0) (tasks ?T) =
             Some \<lparr> tk_id = 0, tk_groupedId = ''g1'', tk_data = 0, tk_config = None,
                    tk_phase = AwaitSend (Inl (Error ''flood wait'')) \<rparr>"
    and t: "filter (\<lambda>tk. tk_id tk \<noteq> 0) (tasks ?T) = []" and l: "logged ?T = []"
    by code_simp+
  show "settle gateway_unreachable 0 ?T =
          ?T\<lparr>tasks := [], logged := [Error ''flood wait''],
             groupedMessages := (groupedMessages ?T)(''g1'' := None)\<rparr>"
    using gateway_failure_contained
            [where gw = gateway_unreachable and st = ?T and k = 0
               and e = "Error ''flood wait''"
               and tk = "\<lparr> tk_id = 0, tk_groupedId = ''g1'', tk_data = 0,
                           tk_config = None,
                           tk_phase = AwaitSend (Inl (Error ''flood wait'')) \<rparr>"]
          f t l
    by simp
qed

section \<open>The store never holds a falsy identifier\<close>

lemma store_ok_iff: "store_ok st \<longleftrightarrow> (\<forall>k d. messageMapping st k = Some d \<longrightarrow> d \<noteq> 0)"
  by (auto simp add: store_ok_def ran_def)

lemma store_ok_init: "store_ok (init tg tc)"
  by (simp add: store_ok_iff init_def)

lemma store_ok_storeMapping:
  "store_ok st \<Longrightarrow> store_ok (storeMapping k sent st)"
  by (auto simp add: store_ok_iff storeMapping_def truthy_id_iff)

lemma store_ok_cong:
  "messageMapping st' = messageMapping st \<Longrightarrow> store_ok st \<Longrightarrow> store_ok st'"
  by (simp add: store_ok_iff)

lemma store_ok_update:
  "store_ok st \<Longrightarrow> d \<noteq> 0 \<Longrightarrow> messageMapping st' = (messageMapping st)(k \<mapsto> d) \<Longrightarrow>
     store_ok st'"
  unfolding store_ok_iff by (metis fun_upd_apply option.inject)

lemma store_ok_single_multi:
  assumes "store_ok st"
  shows "store_ok (processSingleMessageMulti gw m c st)"
  using single_multi_store [of gw m c st] store_ok_cong [OF _ assms] store_ok_update [OF assms]
  by blast

lemma store_ok_single_legacy:
  assumes "store_ok st"
  shows "store_ok (processSingleMessage gw m st)"
  using single_legacy_store [of gw m st] store_ok_cong [OF _ assms] store_ok_update [OF assms]
  by blast

lemma store_ok_handle:
  assumes "store_ok st"
  shows "store_ok (handle gw t ev (fire_due gw t st))"
proof -
  have fd: "store_ok (fire_due gw t st)"
    using assms by (simp add: store_ok_iff)
  show ?thesis
  proof (cases ev)
    case (NewMessageMulti m c)
    then show ?thesis
      using fd store_ok_single_multi [OF fd]
      by (simp add: handle_def handleNewMessageMulti_def store_ok_iff)
  next
    case (NewMessageLegacy m)
    then show ?thesis
      using fd store_ok_single_legacy [OF fd]
      by (simp add: handle_def handleNewMessage_def store_ok_iff)
  next
    case (Settle k)
    then show ?thesis using fd by (simp add: handle_def store_ok_iff)
  next
    case Tick
    then show ?thesis using fd by (simp add: handle_def)
  qed
qed

text \<open>
  Every state the event loop reaches from the initial one satisfies the hypothesis on the
  store that the theorems on replies and edits make.
\<close>

lemma store_ok_exec: "store_ok st \<Longrightarrow> store_ok (exec gw st evs)"
proof (induction evs arbitrary: st)
  case Nil
  then show ?case by simp
next
  case (Cons x evs)
  obtain t ev where x: "x = (t, ev)" by (cases x)
  from Cons.IH [OF store_ok_handle [OF Cons.prems, of gw t ev]] x show ?case by simp
qed

lemma store_ok_edits:
  "store_ok st \<Longrightarrow> store_ok (handleEditedMessageMulti gw m c st)"
  "store_ok st \<Longrightarrow> store_ok (handleEditedMessage gw m st)"
  by (simp_all add: store_ok_iff edits_store)

end
